theory Spec2Isabelle
  imports Main "HOL-Library.Word"
begin

unbundle bit_operations_syntax

section \<open>Expression Multiplexer firmware: data model\<close>

text \<open>
  The firmware is one Arduino sketch, \<^verbatim>\<open>ExpMultiplexer.ino\<close>. Its state is a set of
  global variables; the model bundles them in one record and every source function
  becomes a function from state to state. An Arduino \<^verbatim>\<open>byte\<close> is an 8-bit word, an
  Arduino \<^verbatim>\<open>word\<close> (the type of the two ADC readings) a 16-bit word. The fixed-size
  arrays are lists; the arrays of four are read and written by the source's loops at the
  constant indices 0..3 and, in a few places, at an index held in a variable
  (\<^verbatim>\<open>SelIndex\<close>, \<^verbatim>\<open>PatchActive\<close>, \<^verbatim>\<open>ChnlMode[SelIndex]\<close>); the latter accesses
  are checked against the array bound in the model, see \<open>Fault\<close> below.
\<close>

type_synonym byte = "8 word"

text \<open>The lookup table for the log taper, lines 56-79 of the sketch.\<close>

definition LogPot :: "byte list" where
  "LogPot =
  [0, 0, 0, 0, 0, 0, 0, 0, 0, 0, 0, 0, 1, 1, 1, 1,
   1, 1, 1, 1, 2, 2, 2, 2, 2, 2, 3, 3, 3, 3, 4, 4,
   4, 4, 5, 5, 5, 5, 6, 6, 6, 7, 7, 7, 8, 8, 8, 9,
   9, 9, 10, 10, 11, 11, 11, 12, 12, 13, 13, 14, 14, 15, 15, 16,
   16, 17, 17, 18, 18, 19, 19, 20, 20, 21, 21, 22, 23, 23, 24, 24,
   25, 26, 26, 27, 28, 28, 29, 30, 30, 31, 32, 32, 33, 34, 35, 35,
   36, 37, 38, 38, 39, 40, 41, 42, 42, 43, 44, 45, 46, 47, 47, 48,
   49, 50, 51, 52, 53, 54, 55, 56, 56, 57, 58, 59, 60, 61, 62, 63,
   64, 65, 66, 67, 68, 69, 70, 71, 73, 74, 75, 76, 77, 78, 79, 80,
   81, 82, 84, 85, 86, 87, 88, 89, 91, 92, 93, 94, 95, 97, 98, 99,
   100, 102, 103, 104, 105, 107, 108, 109, 111, 112, 113, 115, 116, 117, 119, 120,
   121, 123, 124, 126, 127, 128, 130, 131, 133, 134, 136, 137, 139, 140, 142, 143,
   145, 146, 148, 149, 151, 152, 154, 155, 157, 158, 160, 162, 163, 165, 166, 168,
   170, 171, 173, 175, 176, 178, 180, 181, 183, 185, 186, 188, 190, 192, 193, 195,
   197, 199, 200, 202, 204, 206, 207, 209, 211, 213, 215, 217, 218, 220, 222, 224,
   226, 228, 230, 232, 233, 235, 237, 239, 241, 243, 245, 247, 249, 251, 253, 255]"

text \<open>
  The taper switch of \<^verbatim>\<open>loop()\<close> (lines 260-275 in Patch mode, the same switch at
  lines 348-363 in Normal mode): the value handed to \<^verbatim>\<open>WritePotSPI\<close> for a pedal
  value and a channel mode, and \<open>None\<close> for the \<^verbatim>\<open>default\<close> case, which writes
  nothing. \<^verbatim>\<open>255 - ExpVal\<close> is computed on C ints and lies in 0..255, so the 8-bit
  subtraction is the same value.
\<close>

definition TaperMapper :: "byte \<Rightarrow> byte \<Rightarrow> byte option" where
  "TaperMapper ExpV m =
     (if m = 0 then Some ExpV
      else if m = 1 then Some (255 - ExpV)
      else if m = 2 then Some (LogPot ! unat ExpV)
      else if m = 3 then Some (LogPot ! unat (255 - ExpV))
      else None)"

section \<open>The global variables\<close>

text \<open>
  One field per global variable of the sketch (lines 82-133), under the source's name.
  Three further fields stand for what lies outside the microcontroller's variables:
  \<^item> \<open>Eeprom\<close>: the first ten cells of the EEPROM, the only ones the sketch touches;
  \<^item> \<open>PotWrites\<close>: the log of wiper values sent to the digital potentiometers, one
    pair (pot id, data) per effective call of \<^verbatim>\<open>WritePotSPI\<close>, oldest first;
  \<^item> \<open>Fault\<close>: set as soon as an array of four is indexed at 4 or above.
  The levels of the LED pins are not part of the state: \<^verbatim>\<open>digitalWrite\<close> on them is
  the last step of \<^verbatim>\<open>CheckLeds\<close> and the whole of the two blink routines, and no
  variable of the sketch depends on it.
\<close>

record state =
  ExpInputVal :: "16 word"
  SelInputVal :: "16 word"
  ExpVal :: byte
  SelVal :: byte
  PatchModeState :: "byte list list"
  PatchChnlState :: "bool list list"
  PatchActive :: byte
  ChnlState :: "bool list"
  ChnlMode :: "byte list"
  SelIndex :: byte
  TimerCount :: byte
  SaveModeCounter :: byte
  NvmData :: "byte list"
  Btn0State :: bool
  Btn0Pressed :: bool
  Btn0Released :: bool
  Btn1State :: bool
  Btn1Pressed :: bool
  Btn1Released :: bool
  SelValChng :: bool
  LastSelVal :: byte
  PatchMode :: bool
  SaveMode :: bool
  SvMdCntrActive :: bool
  ChnlLedState :: "byte list"
  ModeLedState :: "byte list"
  Eeprom :: "byte list"
  PotWrites :: "(byte \<times> byte) list"
  Fault :: bool

text \<open>The initialisers of the globals, over a given EEPROM content.\<close>

definition init_state :: "byte list \<Rightarrow> state" where
  "init_state rom =
     \<lparr> ExpInputVal = 0, SelInputVal = 0, ExpVal = 0, SelVal = 0,
       PatchModeState = [[0, 0, 0, 0], [0, 0, 0, 0], [0, 0, 0, 0], [0, 0, 0, 0]],
       PatchChnlState = [[False, False, False, False], [False, False, False, False],
                         [False, False, False, False], [False, False, False, False]],
       PatchActive = 255,
       ChnlState = [False, False, False, False],
       ChnlMode = [0, 0, 0, 0],
       SelIndex = 0, TimerCount = 0, SaveModeCounter = 0,
       NvmData = [0, 0, 0, 0, 0, 0, 0, 0, 0, 0],
       Btn0State = False, Btn0Pressed = False, Btn0Released = False,
       Btn1State = False, Btn1Pressed = False, Btn1Released = False,
       SelValChng = False, LastSelVal = 0,
       PatchMode = False, SaveMode = False, SvMdCntrActive = False,
       ChnlLedState = [0, 0, 0, 0], ModeLedState = [0, 0, 0, 0],
       Eeprom = rom, PotWrites = [], Fault = False \<rparr>"

text \<open>
  What an out-of-range read of \<^verbatim>\<open>PatchChnlState\<close> finds: the AVR has no memory
  protection, so the read returns the byte that happens to lie at that offset from the
  start of the array. The model takes these bytes as a parameter.
\<close>

type_synonym ram = "nat \<Rightarrow> byte"

section \<open>Buttons, selector and long-press counter\<close>

text \<open>
  \<^verbatim>\<open>CheckBtns\<close> (lines 434-452); its argument is the pair of levels that the two
  \<^verbatim>\<open>digitalRead\<close> calls return for Btn0 and Btn1 (the buttons are active low).
\<close>

definition CheckBtns :: "bool \<times> bool \<Rightarrow> state \<Rightarrow> state" where
  "CheckBtns lv s =
     (let s1 = s\<lparr>Btn0State := fst lv, Btn1State := snd lv\<rparr>;
          s2 = (if \<not> Btn0State s1 \<and> \<not> Btn0Pressed s1 \<and> \<not> Btn0Released s1
                then s1\<lparr>Btn0Pressed := True\<rparr> else s1);
          s3 = (if Btn0State s2 \<and> Btn0Pressed s2 \<and> \<not> Btn0Released s2
                then s2\<lparr>Btn0Released := True\<rparr> else s2);
          s4 = (if \<not> Btn1State s3 \<and> \<not> Btn1Pressed s3 \<and> \<not> Btn1Released s3
                then s3\<lparr>Btn1Pressed := True\<rparr> else s3)
      in if Btn1State s4 \<and> Btn1Pressed s4 \<and> \<not> Btn1Released s4
         then s4\<lparr>Btn1Released := True\<rparr> else s4)"

definition ClrBtns :: "state \<Rightarrow> state" where
  "ClrBtns s = s\<lparr>Btn0Pressed := False, Btn0Released := False,
                 Btn1Pressed := False, Btn1Released := False\<rparr>"

definition CheckSaveMode :: "state \<Rightarrow> state" where
  "CheckSaveMode s =
     (if SvMdCntrActive s then s\<lparr>SaveModeCounter := SaveModeCounter s + 1\<rparr> else s)"

text \<open>
  \<^verbatim>\<open>CheckSelector\<close> (lines 423-432); its argument is the value of
  \<^verbatim>\<open>analogRead(SelIn)\<close>, stored in the 16-bit \<^verbatim>\<open>SelInputVal\<close> and cut to a byte
  after the shift.
\<close>

definition CheckSelector :: "16 word \<Rightarrow> state \<Rightarrow> state" where
  "CheckSelector sel s =
     (let s1 = s\<lparr>SelInputVal := sel\<rparr>;
          s2 = s1\<lparr>SelVal := ucast (drop_bit 8 (SelInputVal s1))\<rparr>;
          s3 = (if SelVal s2 \<noteq> LastSelVal s2 then s2\<lparr>SelValChng := True\<rparr> else s2)
      in s3\<lparr>LastSelVal := SelVal s3\<rparr>)"

text \<open>
  The two blocking waits of \<^verbatim>\<open>loop()\<close>:
  \<^verbatim>\<open>while(!Btn0Released && !Btn1Released){ CheckBtns(); delay(10); }\<close> (lines 240-243 and
  309-312) and \<^verbatim>\<open>while(!Btn1Released){ CheckBtns(); delay(10); }\<close> (lines 327-330 and
  385-388). They run for as long as the buttons are held, so they may never return. The
  list holds the pin levels that the successive \<^verbatim>\<open>CheckBtns\<close> calls read; \<open>None\<close>
  means that the wait is still running when the list is used up.
\<close>

fun WaitBothBtns :: "(bool \<times> bool) list \<Rightarrow> state \<Rightarrow> state option" where
  "WaitBothBtns [] s = (if \<not> Btn0Released s \<and> \<not> Btn1Released s then None else Some s)"
| "WaitBothBtns (lv # lvs) s =
     (if \<not> Btn0Released s \<and> \<not> Btn1Released s then WaitBothBtns lvs (CheckBtns lv s)
      else Some s)"

fun WaitBtn1 :: "(bool \<times> bool) list \<Rightarrow> state \<Rightarrow> state option" where
  "WaitBtn1 [] s = (if \<not> Btn1Released s then None else Some s)"
| "WaitBtn1 (lv # lvs) s =
     (if \<not> Btn1Released s then WaitBtn1 lvs (CheckBtns lv s) else Some s)"

section \<open>LED presenter\<close>

text \<open>
  \<^verbatim>\<open>CheckLeds\<close> (lines 469-533), one definition per loop body. In Patch mode the
  source reads \<^verbatim>\<open>PatchChnlState[PatchActive][i]\<close> with no test on
  \<^verbatim>\<open>PatchActive\<close>: for an index of 4 or more the read leaves the array, the model
  sets \<open>Fault\<close> and stores the byte that \<open>ram\<close> holds at offset
  \<open>4 * PatchActive + i\<close>.
\<close>

definition LedPatchStep :: "ram \<Rightarrow> state \<Rightarrow> nat \<Rightarrow> state" where
  "LedPatchStep ram s i =
     (let pa = unat (PatchActive s);
          ib = (of_nat i :: byte);
          s1 = (if pa < 4
                then s\<lparr>ChnlLedState := (ChnlLedState s)[i := of_bool (PatchChnlState s ! pa ! i)]\<rparr>
                else s\<lparr>ChnlLedState := (ChnlLedState s)[i := ram (4 * pa + i)], Fault := True\<rparr>)
      in if SelIndex s1 \<noteq> PatchActive s1 \<and> PatchActive s1 = ib
           then s1\<lparr>ModeLedState := (ModeLedState s1)[i := 1]\<rparr>
         else if SelIndex s1 \<noteq> ib \<and> PatchActive s1 \<noteq> ib
           then s1\<lparr>ModeLedState := (ModeLedState s1)[i := 0]\<rparr>
         else if SelIndex s1 = ib \<and> PatchActive s1 = ib
           then s1\<lparr>ModeLedState := (ModeLedState s1)[i := 3]\<rparr>
         else if SelIndex s1 = ib \<and> PatchActive s1 \<noteq> ib
           then s1\<lparr>ModeLedState := (ModeLedState s1)[i := 2]\<rparr>
         else s1)"

definition LedNormalStep :: "state \<Rightarrow> nat \<Rightarrow> state" where
  "LedNormalStep s i =
     (let ib = (of_nat i :: byte);
          s1 = (if SelIndex s \<noteq> ib \<and> ChnlState s ! i
                  then s\<lparr>ChnlLedState := (ChnlLedState s)[i := 1]\<rparr>
                else if SelIndex s \<noteq> ib \<and> \<not> ChnlState s ! i
                  then s\<lparr>ChnlLedState := (ChnlLedState s)[i := 0]\<rparr>
                else if SelIndex s = ib \<and> ChnlState s ! i
                  then s\<lparr>ChnlLedState := (ChnlLedState s)[i := 3]\<rparr>
                else if SelIndex s = ib \<and> \<not> ChnlState s ! i
                  then s\<lparr>ChnlLedState := (ChnlLedState s)[i := 2]\<rparr>
                else s)
      in s1\<lparr>ModeLedState := (ModeLedState s1)[i := 0]\<rparr>)"

text \<open>
  Line 505, \<^verbatim>\<open>ModeLedState[ChnlMode[SelIndex]] = 1\<close>: a read at \<^verbatim>\<open>SelIndex\<close> and
  a write at the value read. Outside the bounds the model sets \<open>Fault\<close> and writes
  nothing (the hardware would overwrite a neighbouring variable).
\<close>

definition LedNormalMode :: "state \<Rightarrow> state" where
  "LedNormalMode s =
     (if unat (SelIndex s) < 4 \<and> unat (ChnlMode s ! unat (SelIndex s)) < 4
      then s\<lparr>ModeLedState := (ModeLedState s)[unat (ChnlMode s ! unat (SelIndex s)) := 1]\<rparr>
      else s\<lparr>Fault := True\<rparr>)"

definition LedSaveStep :: "state \<Rightarrow> nat \<Rightarrow> state" where
  "LedSaveStep s i =
     (let s1 = (if SelIndex s = of_nat i
                then s\<lparr>ModeLedState := (ModeLedState s)[i := 3]\<rparr>
                else s\<lparr>ModeLedState := (ModeLedState s)[i := 0]\<rparr>)
      in s1\<lparr>ChnlLedState := (ChnlLedState s1)[i := of_bool (ChnlState s1 ! i)]\<rparr>)"

definition CheckLeds :: "ram \<Rightarrow> state \<Rightarrow> state" where
  "CheckLeds ram s =
     (if PatchMode s then foldl (LedPatchStep ram) s [0, 1, 2, 3]
      else if \<not> PatchMode s \<and> \<not> SaveMode s then LedNormalMode (foldl LedNormalStep s [0, 1, 2, 3])
      else foldl LedSaveStep s [0, 1, 2, 3])"

section \<open>Potentiometer output\<close>

text \<open>\<^verbatim>\<open>WritePotSPI\<close> (lines 570-608): ids 0..3 select a chip, any other id does nothing.\<close>

definition WritePotSPI :: "byte \<Rightarrow> byte \<Rightarrow> state \<Rightarrow> state" where
  "WritePotSPI PotID Data s =
     (if PotID = 0 \<or> PotID = 1 \<or> PotID = 2 \<or> PotID = 3
      then s\<lparr>PotWrites := PotWrites s @ [(PotID, Data)]\<rparr> else s)"

definition DigPotsInit :: "state \<Rightarrow> state" where
  "DigPotsInit s = foldl (\<lambda>t i. WritePotSPI (of_nat i) (ExpVal t) t) s [0, 1, 2, 3]"

section \<open>Persistence codec\<close>

text \<open>
  \<^verbatim>\<open>ReadNvmData\<close> (lines 610-637). Each loop of the source writes one array, so
  each is a fold over that array. The conversions are C's: a byte stored into a
  \<^verbatim>\<open>bool\<close> is true when it is not zero.
\<close>

definition ReadNvmData :: "state \<Rightarrow> state" where
  "ReadNvmData s =
     (let nv = foldl (\<lambda>nv i. nv[i := Eeprom s ! i]) (NvmData s) [0, 1, 2, 3, 4, 5, 6, 7, 8, 9];
          cm = foldl (\<lambda>cm i. cm[i := drop_bit (i * 2) (nv ! 0) AND 3]) (ChnlMode s) [0, 1, 2, 3];
          pc = foldl (\<lambda>pc i. foldl (\<lambda>pc j.
                    pc[i := (pc ! i)[j := drop_bit j (nv ! (1 + i * 2)) AND 1 \<noteq> 0]])
                  pc [0, 1, 2, 3]) (PatchChnlState s) [0, 1, 2, 3];
          pm = foldl (\<lambda>pm i. foldl (\<lambda>pm j.
                    pm[i := (pm ! i)[j := drop_bit (j * 2) (nv ! (2 + i * 2)) AND 3]])
                  pm [0, 1, 2, 3]) (PatchModeState s) [0, 1, 2, 3]
      in s\<lparr>NvmData := nv, ChnlMode := cm, PatchChnlState := pc, PatchModeState := pm,
           PatchMode := (nv ! 9 \<noteq> 0)\<rparr>)"

text \<open>
  \<^verbatim>\<open>UpdateNvmData\<close> (lines 639-668). The shifts are done on C ints and the result is
  cut to a byte on assignment; shifting and or-ing 8-bit words gives the same byte.
  \<^verbatim>\<open>EEPROM.update\<close> writes a cell when its content differs, so the cell holds the
  value afterwards either way.
\<close>

definition UpdateNvmData :: "state \<Rightarrow> state" where
  "UpdateNvmData s =
     (let nv0 = (NvmData s)
                  [0 := ((push_bit 6 (ChnlMode s ! 3) OR push_bit 4 (ChnlMode s ! 2))
                         OR push_bit 2 (ChnlMode s ! 1)) OR ChnlMode s ! 0];
          nv1 = foldl (\<lambda>nv i. nv[1 + i * 2 :=
                    foldl (\<lambda>helper j. helper OR push_bit j (of_bool (PatchChnlState s ! i ! j)))
                      0 [0, 1, 2, 3]]) nv0 [0, 1, 2, 3];
          nv2 = foldl (\<lambda>nv i. nv[2 + i * 2 :=
                    foldl (\<lambda>helper j. helper OR push_bit (j * 2) (PatchModeState s ! i ! j))
                      0 [0, 1, 2, 3]]) nv1 [0, 1, 2, 3];
          nv3 = nv2[9 := of_bool (PatchMode s)]
      in s\<lparr>NvmData := nv3,
           Eeprom := foldl (\<lambda>e i. e[i := nv3 ! i]) (Eeprom s) [0, 1, 2, 3, 4, 5, 6, 7, 8, 9]\<rparr>)"


section \<open>The main control cycle\<close>

text \<open>
  \<^verbatim>\<open>SelIndex++; if(SelIndex > 3){ SelIndex = 0; }\<close> (lines 227-231 and 292-296), on a
  byte.
\<close>

definition NextSelIndex :: "state \<Rightarrow> state" where
  "NextSelIndex s =
     (let s1 = s\<lparr>SelIndex := SelIndex s + 1\<rparr>
      in if SelIndex s1 > 3 then s1\<lparr>SelIndex := 0\<rparr> else s1)"

text \<open>
  The writes at \<^verbatim>\<open>SelIndex\<close>: line 284 (toggle the channel), line 338 (set its mode)
  and lines 377-380 (copy the channels into a patch). At an index of 4 or more the model
  sets \<open>Fault\<close> and writes nothing.
\<close>

definition ToggleChnl :: "state \<Rightarrow> state" where
  "ToggleChnl s =
     (if unat (SelIndex s) < 4
      then s\<lparr>ChnlState := (ChnlState s)[unat (SelIndex s) := \<not> ChnlState s ! unat (SelIndex s)]\<rparr>
      else s\<lparr>Fault := True\<rparr>)"

definition SetChnlMode :: "state \<Rightarrow> state" where
  "SetChnlMode s =
     (if unat (SelIndex s) < 4
      then s\<lparr>ChnlMode := (ChnlMode s)[unat (SelIndex s) := SelVal s]\<rparr>
      else s\<lparr>Fault := True\<rparr>)"

definition CopyToPatch :: "state \<Rightarrow> state" where
  "CopyToPatch s =
     (if unat (SelIndex s) < 4
      then foldl (\<lambda>t i. t\<lparr>PatchModeState := (PatchModeState t)
                     [unat (SelIndex t) := (PatchModeState t ! unat (SelIndex t))[i := ChnlMode t ! i]],
                   PatchChnlState := (PatchChnlState t)
                     [unat (SelIndex t) := (PatchChnlState t ! unat (SelIndex t))[i := ChnlState t ! i]]\<rparr>)
             s [0, 1, 2, 3]
      else s\<lparr>Fault := True\<rparr>)"

text \<open>
  The output loops: lines 345-365 (Normal mode) and lines 255-278 (Patch mode, under
  the test \<^verbatim>\<open>PatchActive < 5\<close>, which lets the index 4 through: there the
  model sets \<open>Fault\<close> and sends nothing, where the hardware would act on the stray
  bytes it reads).
\<close>

definition NormalOutputs :: "state \<Rightarrow> state" where
  "NormalOutputs s =
     foldl (\<lambda>t i. if ChnlState t ! i
                   then (case TaperMapper (ExpVal t) (ChnlMode t ! i) of
                           Some v \<Rightarrow> WritePotSPI (of_nat i) v t
                         | None \<Rightarrow> t)
                   else t) s [0, 1, 2, 3]"

definition PatchOutputs :: "state \<Rightarrow> state" where
  "PatchOutputs s =
     (if PatchActive s < 5
      then (if unat (PatchActive s) < 4
            then foldl (\<lambda>t i. if PatchChnlState t ! unat (PatchActive t) ! i
                     then (case TaperMapper (ExpVal t) (PatchModeState t ! unat (PatchActive t) ! i) of
                             Some v \<Rightarrow> WritePotSPI (of_nat i) v t
                           | None \<Rightarrow> t)
                     else t) s [0, 1, 2, 3]
            else s\<lparr>Fault := True\<rparr>)
      else s)"

text \<open>
  The three branches of \<^verbatim>\<open>loop()\<close>, each split into its button part and the rest.
  \<open>lvs\<close> are the pin levels read by a blocking wait, should the pass reach one.
\<close>

definition PatchButtons :: "ram \<Rightarrow> (bool \<times> bool) list \<Rightarrow> state \<Rightarrow> state option" where
  "PatchButtons ram lvs s =
     (if Btn0Pressed s \<and> Btn0Released s \<and> \<not> Btn1Pressed s \<and> \<not> Btn1Released s
        then Some (ClrBtns (CheckLeds ram
               (if SelIndex s = PatchActive s then s\<lparr>PatchActive := 255\<rparr>
                else s\<lparr>PatchActive := SelIndex s\<rparr>)))
      else if \<not> Btn0Pressed s \<and> \<not> Btn0Released s \<and> Btn1Pressed s \<and> Btn1Released s
        then Some (ClrBtns (CheckLeds ram (NextSelIndex s)))
      else if Btn0Pressed s \<and> \<not> Btn0Released s \<and> Btn1Pressed s \<and> \<not> Btn1Released s
        then map_option (\<lambda>t. ClrBtns (UpdateNvmData t))
               (WaitBothBtns lvs (CheckLeds ram (s\<lparr>PatchMode := False, SelIndex := 0\<rparr>)))
      else Some s)"

definition PatchSelector :: "ram \<Rightarrow> state \<Rightarrow> state" where
  "PatchSelector ram s =
     (if SelValChng s
      then (CheckLeds ram (s\<lparr>SelIndex := SelVal s\<rparr>))\<lparr>SelValChng := False\<rparr>
      else s)"

definition LoopPatch :: "ram \<Rightarrow> (bool \<times> bool) list \<Rightarrow> state \<Rightarrow> state option" where
  "LoopPatch ram lvs s =
     map_option (\<lambda>t. PatchOutputs (PatchSelector ram t)) (PatchButtons ram lvs s)"

definition NormalButtons :: "ram \<Rightarrow> (bool \<times> bool) list \<Rightarrow> state \<Rightarrow> state option" where
  "NormalButtons ram lvs s =
     (if Btn0Pressed s \<and> Btn0Released s \<and> \<not> Btn1Pressed s \<and> \<not> Btn1Released s
        then Some (ClrBtns (CheckLeds ram
               ((ToggleChnl s)\<lparr>SvMdCntrActive := False, SaveModeCounter := 0\<rparr>)))
      else if \<not> Btn0Pressed s \<and> \<not> Btn0Released s \<and> Btn1Pressed s \<and> Btn1Released s
        then Some (ClrBtns (CheckLeds ram
               ((NextSelIndex s)\<lparr>SvMdCntrActive := False, SaveModeCounter := 0\<rparr>)))
      else if Btn0Pressed s \<and> \<not> Btn0Released s \<and> Btn1Pressed s \<and> \<not> Btn1Released s
        then map_option (\<lambda>t. ClrBtns (UpdateNvmData t))
               (WaitBothBtns lvs (CheckLeds ram
                  (s\<lparr>SvMdCntrActive := False, SaveModeCounter := 0, SelIndex := 0,
                     PatchMode := True\<rparr>)))
      else if \<not> Btn0Pressed s \<and> \<not> Btn0Released s \<and> Btn1Pressed s \<and> \<not> Btn1Released s
        then (let s1 = s\<lparr>SvMdCntrActive := True\<rparr>
              in if SaveModeCounter s1 > 3
                 then map_option (\<lambda>t. ClrBtns (UpdateNvmData t))
                        (WaitBtn1 lvs (CheckLeds ram
                           (s1\<lparr>SvMdCntrActive := False, SaveModeCounter := 0, SelIndex := 0,
                               SaveMode := True\<rparr>)))
                 else Some s1)
      else Some s)"

definition NormalSelector :: "ram \<Rightarrow> state \<Rightarrow> state" where
  "NormalSelector ram s =
     (if SelValChng s
      then UpdateNvmData (CheckLeds ram ((SetChnlMode s)\<lparr>SelValChng := False\<rparr>))
      else s)"

definition LoopNormal :: "ram \<Rightarrow> (bool \<times> bool) list \<Rightarrow> state \<Rightarrow> state option" where
  "LoopNormal ram lvs s =
     map_option (\<lambda>t. NormalOutputs (NormalSelector ram t)) (NormalButtons ram lvs s)"

definition SaveButtons :: "ram \<Rightarrow> (bool \<times> bool) list \<Rightarrow> state \<Rightarrow> state option" where
  "SaveButtons ram lvs s =
     (if Btn1Pressed s \<and> \<not> Btn1Released s
      then (let s1 = s\<lparr>SvMdCntrActive := True\<rparr>
            in if SaveModeCounter s1 > 3
               then map_option (\<lambda>t. ClrBtns (UpdateNvmData t))
                      (WaitBtn1 lvs (CheckLeds ram
                         ((CopyToPatch (s1\<lparr>SvMdCntrActive := False, SaveModeCounter := 0\<rparr>))
                            \<lparr>SelIndex := 0, SelValChng := False, SaveMode := False\<rparr>)))
               else Some s1)
      else Some s)"

definition LoopSave :: "ram \<Rightarrow> (bool \<times> bool) list \<Rightarrow> state \<Rightarrow> state option" where
  "LoopSave ram lvs s =
     map_option (\<lambda>t. t\<lparr>SelIndex := SelVal t, SelValChng := False\<rparr>) (SaveButtons ram lvs s)"

text \<open>
  \<^verbatim>\<open>loop()\<close> (lines 205-399), one pass. \<open>ex\<close> and \<open>sel\<close> are the values of
  \<^verbatim>\<open>analogRead(ExpIn)\<close> and \<^verbatim>\<open>analogRead(SelIn)\<close>. The result is \<open>None\<close> when
  the pass is still inside a blocking wait after the given pin levels.
\<close>

definition Loop :: "ram \<Rightarrow> 16 word \<Rightarrow> 16 word \<Rightarrow> (bool \<times> bool) list \<Rightarrow> state \<Rightarrow> state option" where
  "Loop ram ex sel lvs s =
     (let s1 = s\<lparr>ExpInputVal := ex\<rparr>;
          s2 = s1\<lparr>ExpVal := ucast (drop_bit 2 (ExpInputVal s1))\<rparr>;
          s3 = CheckSelector sel s2
      in if PatchMode s3 then LoopPatch ram lvs s3
         else if \<not> PatchMode s3 \<and> \<not> SaveMode s3 then LoopNormal ram lvs s3
         else LoopSave ram lvs s3)"

section \<open>Timer interrupt and start-up\<close>

definition Tmr10msTask :: "bool \<times> bool \<Rightarrow> state \<Rightarrow> state" where
  "Tmr10msTask lv s = CheckBtns lv s"

text \<open>
  \<^verbatim>\<open>LedsFastBlink\<close> and \<^verbatim>\<open>LedsSlowBlink\<close> (lines 535-559) read the LED states
  and toggle LED pins; they write no variable, so on this state they do nothing.
\<close>

definition LedsFastBlink :: "state \<Rightarrow> state" where
  "LedsFastBlink s = s"

definition LedsSlowBlink :: "state \<Rightarrow> state" where
  "LedsSlowBlink s = s"

definition Tmr100msTask :: "ram \<Rightarrow> state \<Rightarrow> state" where
  "Tmr100msTask ram s = LedsFastBlink (CheckLeds ram s)"

definition Tmr250msTask :: "state \<Rightarrow> state" where
  "Tmr250msTask s = LedsSlowBlink s"

definition Tmr500msTask :: "state \<Rightarrow> state" where
  "Tmr500msTask s = CheckSaveMode s"

text \<open>
  \<^verbatim>\<open>IntTmr1\<close> (lines 188-203), one timer interrupt; \<open>lv\<close> are the pin levels that
  its \<^verbatim>\<open>CheckBtns\<close> reads. \<^verbatim>\<open>TimerCount % 10\<close> is computed on the value of the
  byte.
\<close>

definition IntTmr1 :: "ram \<Rightarrow> bool \<times> bool \<Rightarrow> state \<Rightarrow> state" where
  "IntTmr1 ram lv s =
     (let s1 = s\<lparr>TimerCount := TimerCount s + 1\<rparr>;
          s2 = Tmr10msTask lv s1;
          s3 = (if unat (TimerCount s2) mod 10 = 0 then Tmr100msTask ram s2 else s2);
          s4 = (if unat (TimerCount s3) mod 25 = 0 then Tmr250msTask s3 else s3)
      in if unat (TimerCount s4) mod 50 = 0
         then (Tmr500msTask s4)\<lparr>TimerCount := 0\<rparr> else s4)"

text \<open>A run of \<open>n\<close> timer interrupts that all find the same pin levels.\<close>

fun ticks :: "ram \<Rightarrow> bool \<times> bool \<Rightarrow> nat \<Rightarrow> state \<Rightarrow> state" where
  "ticks ram lv 0 s = s"
| "ticks ram lv (Suc n) s = ticks ram lv n (IntTmr1 ram lv s)"

text \<open>
  \<^verbatim>\<open>setup()\<close> (lines 136-186) on the initial globals: the two first ADC readings, the
  first button sample, the potentiometers, the stored record.
\<close>

definition setup_fn :: "byte list \<Rightarrow> 16 word \<Rightarrow> 16 word \<Rightarrow> bool \<times> bool \<Rightarrow> state" where
  "setup_fn rom ex sel lv =
     (let s0 = init_state rom;
          s1 = s0\<lparr>SelVal := ucast (drop_bit 8 sel)\<rparr>;
          s2 = s1\<lparr>LastSelVal := SelVal s1\<rparr>;
          s3 = s2\<lparr>ExpVal := ucast (drop_bit 2 ex)\<rparr>
      in ReadNvmData (DigPotsInit (CheckBtns lv s3)))"

section \<open>Reachable states\<close>

text \<open>
  The ADC of the board has 10 bits: \<^verbatim>\<open>analogRead\<close> returns a value in 0..1023.
\<close>

definition adc :: "16 word \<Rightarrow> bool" where
  "adc v = (v \<le> 1023)"

text \<open>
  The states the device can be in between two passes of \<^verbatim>\<open>loop()\<close>: after
  \<^verbatim>\<open>setup()\<close> on any ten stored bytes, after a complete pass, after a timer interrupt.
  Passes and interrupts are taken as atomic steps; an interrupt that cuts a pass in two
  is outside this model.
\<close>

inductive reachable :: "state \<Rightarrow> bool" where
  boot: "length rom = 10 \<Longrightarrow> adc ex \<Longrightarrow> adc sel \<Longrightarrow> reachable (setup_fn rom ex sel lv)"
| pass: "reachable s \<Longrightarrow> adc ex \<Longrightarrow> adc sel \<Longrightarrow> Loop ram ex sel lvs s = Some s' \<Longrightarrow> reachable s'"
| tick: "reachable s \<Longrightarrow> reachable (IntTmr1 ram lv s)"

section \<open>Vocabulary of the properties\<close>

text \<open>
  The operating mode, read off the two flags in the order in which \<^verbatim>\<open>loop()\<close> and
  \<^verbatim>\<open>CheckLeds\<close> test them (lines 212, 280, 367).
\<close>

datatype mode = Normal | Patch | Save

definition mode_of :: "state \<Rightarrow> mode" where
  "mode_of s = (if PatchMode s then Patch
                else if \<not> PatchMode s \<and> \<not> SaveMode s then Normal else Save)"

text \<open>The declared sizes of the arrays, and of the ten EEPROM cells in use.\<close>

definition shape :: "state \<Rightarrow> bool" where
  "shape s =
     (length (ChnlState s) = 4 \<and> length (ChnlMode s) = 4
      \<and> length (PatchModeState s) = 4 \<and> list_all (\<lambda>r. length r = 4) (PatchModeState s)
      \<and> length (PatchChnlState s) = 4 \<and> list_all (\<lambda>r. length r = 4) (PatchChnlState s)
      \<and> length (ChnlLedState s) = 4 \<and> length (ModeLedState s) = 4
      \<and> length (NvmData s) = 10 \<and> length (Eeprom s) = 10)"

text \<open>Every stored taper is one of the four modes 0..3 of the comment at line 87.\<close>

definition tapers_ok :: "state \<Rightarrow> bool" where
  "tapers_ok s =
     (list_all (\<lambda>m. m \<le> 3) (ChnlMode s)
      \<and> list_all (list_all (\<lambda>m. m \<le> 3)) (PatchModeState s))"

text \<open>The two-bit field \<open>j\<close> of a byte, bits \<open>2j+1\<close> and \<open>2j\<close>.\<close>

definition field2 :: "byte \<Rightarrow> nat \<Rightarrow> byte" where
  "field2 b j = take_bit 2 (drop_bit (2 * j) b)"

text \<open>
  Closed forms of the bytes that \<^verbatim>\<open>UpdateNvmData\<close> builds: four two-bit modes in one
  byte, four flags in the low half of one byte, and the ten bytes of the record.
\<close>

definition pack4 :: "byte \<Rightarrow> byte \<Rightarrow> byte \<Rightarrow> byte \<Rightarrow> byte" where
  "pack4 a b c d = ((a OR push_bit 2 b) OR push_bit 4 c) OR push_bit 6 d"

definition flags4 :: "bool \<Rightarrow> bool \<Rightarrow> bool \<Rightarrow> bool \<Rightarrow> byte" where
  "flags4 a b c d = ((of_bool a OR push_bit 1 (of_bool b)) OR push_bit 2 (of_bool c))
                      OR push_bit 3 (of_bool d)"

definition record_bytes :: "state \<Rightarrow> byte list" where
  "record_bytes s =
    [pack4 (ChnlMode s ! 0) (ChnlMode s ! 1) (ChnlMode s ! 2) (ChnlMode s ! 3),
     flags4 (PatchChnlState s ! 0 ! 0) (PatchChnlState s ! 0 ! 1)
            (PatchChnlState s ! 0 ! 2) (PatchChnlState s ! 0 ! 3),
     pack4 (PatchModeState s ! 0 ! 0) (PatchModeState s ! 0 ! 1)
           (PatchModeState s ! 0 ! 2) (PatchModeState s ! 0 ! 3),
     flags4 (PatchChnlState s ! 1 ! 0) (PatchChnlState s ! 1 ! 1)
            (PatchChnlState s ! 1 ! 2) (PatchChnlState s ! 1 ! 3),
     pack4 (PatchModeState s ! 1 ! 0) (PatchModeState s ! 1 ! 1)
           (PatchModeState s ! 1 ! 2) (PatchModeState s ! 1 ! 3),
     flags4 (PatchChnlState s ! 2 ! 0) (PatchChnlState s ! 2 ! 1)
            (PatchChnlState s ! 2 ! 2) (PatchChnlState s ! 2 ! 3),
     pack4 (PatchModeState s ! 2 ! 0) (PatchModeState s ! 2 ! 1)
           (PatchModeState s ! 2 ! 2) (PatchModeState s ! 2 ! 3),
     flags4 (PatchChnlState s ! 3 ! 0) (PatchChnlState s ! 3 ! 1)
            (PatchChnlState s ! 3 ! 2) (PatchChnlState s ! 3 ! 3),
     pack4 (PatchModeState s ! 3 ! 0) (PatchModeState s ! 3 ! 1)
           (PatchModeState s ! 3 ! 2) (PatchModeState s ! 3 ! 3),
     of_bool (PatchMode s)]"

text \<open>
  A state for the examples: the device after a cold start on an erased record, with
  channels 0 and 2 switched on, the four tapers in use and two patches stored.
\<close>

definition demo :: state where
  "demo = (init_state [0, 0, 0, 0, 0, 0, 0, 0, 0, 0])
     \<lparr>ChnlState := [True, False, True, False], ChnlMode := [0, 1, 2, 3],
      PatchModeState := [[0, 0, 0, 0], [1, 0, 0, 0], [0, 0, 2, 3], [0, 0, 0, 0]],
      PatchChnlState := [[False, False, False, False], [True, False, False, False],
                         [True, False, True, True], [False, False, False, False]]\<rparr>"

text \<open>
  What the output stage is expected to send for a pedal value \<open>v\<close>, four enabled flags
  and four tapers: for each channel 0..3 in turn, nothing when the channel is off, else
  the pair of the channel number and the mapped value.
\<close>

definition channel_output :: "byte \<Rightarrow> bool list \<Rightarrow> byte list \<Rightarrow> nat \<Rightarrow> (byte \<times> byte) list" where
  "channel_output v en tp i =
     (if en ! i then (case TaperMapper v (tp ! i) of Some w \<Rightarrow> [(of_nat i, w)] | None \<Rightarrow> [])
      else [])"

definition outputs :: "byte \<Rightarrow> bool list \<Rightarrow> byte list \<Rightarrow> (byte \<times> byte) list" where
  "outputs v en tp = concat (map (channel_output v en tp) [0, 1, 2, 3])"

text \<open>Patch \<open>i\<close> is the active one: the test of lines 477-484.\<close>

definition patch_active :: "state \<Rightarrow> nat \<Rightarrow> bool" where
  "patch_active s i = (PatchActive s = of_nat i)"

text \<open>
  Two more states for the examples: the device after a cold start on a record that says
  Patch mode, and the same after the On/Off button has been pressed during one timer
  interrupt and released during the next. The stray bytes behind the patch array are
  taken to be zero.
\<close>

definition no_ram :: ram where
  "no_ram = (\<lambda>_. 0)"

definition patch_boot :: state where
  "patch_boot = setup_fn [0, 0, 0, 0, 0, 0, 0, 0, 0, 1] 0 0 (True, True)"

definition patch_tap :: state where
  "patch_tap = IntTmr1 no_ram (True, True) (IntTmr1 no_ram (False, True) patch_boot)"

text \<open>
  Further states for the examples.
  \<^item> \<open>patch_both\<close>: after the cold start in Patch mode, both buttons are found pressed by
    one timer interrupt.
  \<^item> \<open>save_hold\<close>: Save mode with the selector at position 2, the select button held
    and the long-press counter at 4.
  \<^item> \<open>save_tap\<close>: Save mode, the select button pressed and released again while the
    counter stood at 2.
  \<^item> \<open>normal_tap\<close>: the same tap in Normal mode.
\<close>

definition patch_both :: state where
  "patch_both = IntTmr1 no_ram (False, False) patch_boot"

definition save_hold :: state where
  "save_hold = demo\<lparr>SaveMode := True, SelVal := 2, LastSelVal := 2, SelIndex := 2,
     Btn1Pressed := True, SvMdCntrActive := True, SaveModeCounter := 4\<rparr>"

definition save_tap :: state where
  "save_tap = demo\<lparr>SaveMode := True, Btn1State := True, Btn1Pressed := True,
     Btn1Released := True, SvMdCntrActive := True, SaveModeCounter := 2\<rparr>"

definition normal_tap :: state where
  "normal_tap = demo\<lparr>Btn1State := True, Btn1Pressed := True,
     Btn1Released := True, SvMdCntrActive := True, SaveModeCounter := 2\<rparr>"

text \<open>
  The two button situations that \<^verbatim>\<open>loop()\<close> tests for a mode change: both buttons
  pressed and neither released yet (lines 234 and 301), the select button alone pressed
  and not released yet (line 316).
\<close>

definition both_pressed :: "state \<Rightarrow> bool" where
  "both_pressed s = (Btn0Pressed s \<and> \<not> Btn0Released s \<and> Btn1Pressed s \<and> \<not> Btn1Released s)"

definition select_held :: "state \<Rightarrow> bool" where
  "select_held s = (\<not> Btn0Pressed s \<and> \<not> Btn0Released s \<and> Btn1Pressed s \<and> \<not> Btn1Released s)"

section \<open>The taper mapping\<close>

lemma LogPot_length: "length LogPot = 256"
  by (simp add: LogPot_def)

lemma LogPot_sorted: "sorted LogPot"
  unfolding LogPot_def by (simp only: sorted2 sorted1, simp)

text \<open>
  C8. For every raw byte: the linear taper is the identity; the inverse linear taper is
  255 minus the linear one; the inverse log taper at \<open>raw\<close> is the log taper at
  \<open>255 - raw\<close>; the log taper is the table entry; and the table has 256 entries, is
  non-decreasing, starts at 0 and ends at 255.
\<close>

theorem C8_taper_mapper:
  "TaperMapper raw 0 = Some raw
   \<and> TaperMapper raw 1 = map_option (\<lambda>v. 255 - v) (TaperMapper raw 0)
   \<and> TaperMapper raw 3 = TaperMapper (255 - raw) 2
   \<and> TaperMapper raw 2 = Some (LogPot ! unat raw)
   \<and> length LogPot = 256
   \<and> (\<forall>i j. i \<le> j \<longrightarrow> j < 256 \<longrightarrow> LogPot ! i \<le> LogPot ! j)
   \<and> LogPot ! 0 = 0 \<and> LogPot ! 255 = 255"
proof -
  have mono: "\<forall>i j. i \<le> j \<longrightarrow> j < 256 \<longrightarrow> LogPot ! i \<le> LogPot ! j"
    using LogPot_sorted LogPot_length by (simp add: sorted_iff_nth_mono)
  have ends: "LogPot ! 0 = 0 \<and> LogPot ! 255 = 255"
    by (simp add: LogPot_def)
  have maps: "TaperMapper raw 0 = Some raw
     \<and> TaperMapper raw 1 = map_option (\<lambda>v. 255 - v) (TaperMapper raw 0)
     \<and> TaperMapper raw 3 = TaperMapper (255 - raw) 2
     \<and> TaperMapper raw 2 = Some (LogPot ! unat raw)"
    by (simp add: TaperMapper_def)
  from maps mono ends LogPot_length show ?thesis by blast
qed

theorem C8_taper_mapper_witness:
  "(100::nat) \<le> 200 \<and> (200::nat) < 256 \<and> LogPot ! 100 \<le> LogPot ! 200"
proof -
  have "\<forall>i j. i \<le> j \<longrightarrow> j < 256 \<longrightarrow> LogPot ! i \<le> LogPot ! j"
    using C8_taper_mapper [of 0] by blast
  then have "(100::nat) \<le> 200 \<longrightarrow> (200::nat) < 256 \<longrightarrow> LogPot ! 100 \<le> LogPot ! 200"
    by blast
  then show ?thesis by simp
qed

section \<open>The persistence codec\<close>

lemma le3_take_bit: "(a::byte) \<le> 3 \<Longrightarrow> take_bit 2 a = a"
proof -
  assume "a \<le> 3"
  then have "a < 2 ^ 2" by (simp add: word_le_nat_alt word_less_nat_alt)
  then have "a AND mask 2 = a" by (rule less_mask_eq)
  then show ?thesis by (simp add: take_bit_eq_mask)
qed

lemma le3_bits: "(a::byte) \<le> 3 \<Longrightarrow> bit a n \<Longrightarrow> n < 2"
proof -
  assume a: "a \<le> 3" and b: "bit a n"
  from a have "take_bit 2 a = a" by (rule le3_take_bit)
  then have "bit (take_bit 2 a) n" using b by simp
  then show ?thesis by (simp add: bit_take_bit_iff)
qed

lemma and3_take_bit: "(w::byte) AND 3 = take_bit 2 w"
  by (simp add: take_bit_eq_mask mask_eq_exp_minus_1)

lemma and3_le3: "(w::byte) AND 3 \<le> 3"
  by (rule word_and_le1)

lemma and1_bit: "(drop_bit j (w::byte) AND 1 \<noteq> 0) = bit w j"
  by (simp add: and_one_eq bit_iff_odd_drop_bit odd_iff_mod_2_eq_one)

lemma unpack_modes:
  assumes "(a::byte) \<le> 3" "b \<le> 3" "c \<le> 3" "d \<le> 3"
  shows "pack4 a b c d AND 3 = a"
    and "drop_bit 2 (pack4 a b c d) AND 3 = b"
    and "drop_bit 4 (pack4 a b c d) AND 3 = c"
    and "drop_bit 6 (pack4 a b c d) AND 3 = d"
  unfolding and3_take_bit pack4_def
  by (rule bit_eqI; auto simp: bit_simps dest: le3_bits [OF assms(1)] le3_bits [OF assms(2)]
        le3_bits [OF assms(3)] le3_bits [OF assms(4)])+

lemma bit_flags4:
  "bit (flags4 a b c d) n = ((n = 0 \<and> a) \<or> (n = 1 \<and> b) \<or> (n = 2 \<and> c) \<or> (n = 3 \<and> d))"
  unfolding flags4_def by (auto simp: bit_simps)

lemma pack4_alt: "((push_bit 6 d OR push_bit 4 c) OR push_bit 2 b) OR a = pack4 a b c d"
  by (simp add: pack4_def ac_simps)

lemma len4: "length xs = 4 \<Longrightarrow> \<exists>a b c d. xs = [a, b, c, d]"
  by (auto simp: length_Suc_conv eval_nat_numeral)

lemma len10: "length xs = 10 \<Longrightarrow> \<exists>a b c d e f g h i j. xs = [a, b, c, d, e, f, g, h, i, j]"
  by (auto simp: length_Suc_conv eval_nat_numeral)


lemma nv_steps:
  assumes "length (nv::byte list) = 10"
  shows "(foldl (\<lambda>nv i. nv[2 + i * 2 := g i])
           (foldl (\<lambda>nv i. nv[1 + i * 2 := f i]) (nv[0 := x]) [0, 1, 2, 3]) [0, 1, 2, 3]) [9 := y]
         = [x, f 0, g 0, f 1, g 1, f 2, g 2, f 3, g 3, y]"
proof -
  from len10 [OF assms] obtain a b c d e f g h i j where "nv = [a, b, c, d, e, f, g, h, i, j]"
    by blast
  then show ?thesis by simp
qed

lemma ee_steps:
  assumes "length (ee::byte list) = 10"
  shows "foldl (\<lambda>e i. e[i := [a, b, c, d, e', f, g, h, i', j] ! i]) ee [0, 1, 2, 3, 4, 5, 6, 7, 8, 9]
         = [a, b, c, d, e', f, g, h, i', j]"
proof -
  from len10 [OF assms] obtain a b c d e f g h i j where "ee = [a, b, c, d, e, f, g, h, i, j]"
    by blast
  then show ?thesis by simp
qed

lemma pack4_fold:
  "(((0 OR push_bit (0 * 2) a) OR push_bit (1 * 2) b) OR push_bit (2 * 2) c) OR push_bit (3 * 2) d
     = pack4 a b c d"
  by (simp add: pack4_def)

lemma flags4_fold:
  "(((0 OR push_bit 0 (of_bool a)) OR push_bit 1 (of_bool b)) OR push_bit 2 (of_bool c))
      OR push_bit 3 (of_bool d) = flags4 a b c d"
  by (simp add: flags4_def)

lemma UpdateNvmData_eq:
  assumes "length (NvmData s) = 10" "length (Eeprom s) = 10"
  shows "UpdateNvmData s = s\<lparr>NvmData := record_bytes s, Eeprom := record_bytes s\<rparr>"
  unfolding UpdateNvmData_def Let_def nv_steps [OF assms(1)] ee_steps [OF assms(2)]
  by (simp only: foldl.simps pack4_fold flags4_fold pack4_alt record_bytes_def)

lemma ReadNvmData_shape:
  assumes "shape s"
  shows "ReadNvmData s = s\<lparr>NvmData := Eeprom s,
           ChnlMode := map (\<lambda>j. drop_bit (2 * j) (Eeprom s ! 0) AND 3) [0, 1, 2, 3],
           PatchChnlState := map (\<lambda>i. map (\<lambda>j. bit (Eeprom s ! (1 + 2 * i)) j) [0, 1, 2, 3]) [0, 1, 2, 3],
           PatchModeState := map (\<lambda>i. map (\<lambda>j. drop_bit (2 * j) (Eeprom s ! (2 + 2 * i)) AND 3) [0, 1, 2, 3]) [0, 1, 2, 3],
           PatchMode := (Eeprom s ! 9 \<noteq> 0)\<rparr>"
proof -
  from assms have l: "length (NvmData s) = 10" "length (Eeprom s) = 10" "length (ChnlMode s) = 4"
    "length (PatchModeState s) = 4" "list_all (\<lambda>r. length r = 4) (PatchModeState s)"
    "length (PatchChnlState s) = 4" "list_all (\<lambda>r. length r = 4) (PatchChnlState s)"
    by (simp_all add: shape_def)
  from len10 [OF l(1)] obtain a b c d e f g h i j where nv: "NvmData s = [a, b, c, d, e, f, g, h, i, j]"
    by blast
  from len10 [OF l(2)] obtain a' b' c' d' e' f' g' h' i' j' where ee: "Eeprom s = [a', b', c', d', e', f', g', h', i', j']"
    by blast
  from len4 [OF l(3)] obtain m0 m1 m2 m3 where cm: "ChnlMode s = [m0, m1, m2, m3]" by auto
  from len4 [OF l(4)] obtain ra rb rc rd where pm0: "PatchModeState s = [ra, rb, rc, rd]" by auto
  with l(5) have "length ra = 4" "length rb = 4" "length rc = 4" "length rd = 4" by simp_all
  then obtain a0 a1 a2 a3 b0 b1 b2 b3 c0 c1 c2 c3 d0 d1 d2 d3
    where "ra = [a0, a1, a2, a3]" "rb = [b0, b1, b2, b3]" "rc = [c0, c1, c2, c3]" "rd = [d0, d1, d2, d3]"
    by (metis len4)
  with pm0 have pm: "PatchModeState s = [[a0, a1, a2, a3], [b0, b1, b2, b3], [c0, c1, c2, c3], [d0, d1, d2, d3]]"
    by simp
  from len4 [OF l(6)] obtain sa sb sc sd where pc0: "PatchChnlState s = [sa, sb, sc, sd]" by auto
  with l(7) have "length sa = 4" "length sb = 4" "length sc = 4" "length sd = 4" by simp_all
  then obtain p0 p1 p2 p3 q0 q1 q2 q3 r0 r1 r2 r3 t0 t1 t2 t3
    where "sa = [p0, p1, p2, p3]" "sb = [q0, q1, q2, q3]" "sc = [r0, r1, r2, r3]" "sd = [t0, t1, t2, t3]"
    by (metis len4)
  with pc0 have pc: "PatchChnlState s = [[p0, p1, p2, p3], [q0, q1, q2, q3], [r0, r1, r2, r3], [t0, t1, t2, t3]]"
    by simp
  show ?thesis
    by (simp add: ReadNvmData_def Let_def nv ee cm pc pm and1_bit)
qed

lemma lt4_cases: "(j::nat) < 4 \<Longrightarrow> j = 0 \<or> j = 1 \<or> j = 2 \<or> j = 3"
  by arith

lemma field2_pack4:
  assumes "(a::byte) \<le> 3" "b \<le> 3" "c \<le> 3" "d \<le> 3" "j < 4"
  shows "field2 (pack4 a b c d) j = [a, b, c, d] ! j"
  using lt4_cases [OF assms(5)] unpack_modes [OF assms(1-4)]
  by (auto simp: field2_def and3_take_bit)

lemma shape_lists:
  assumes "shape s"
  obtains m0 m1 m2 m3 a0 a1 a2 a3 b0 b1 b2 b3 c0 c1 c2 c3 d0 d1 d2 d3
          p0 p1 p2 p3 q0 q1 q2 q3 r0 r1 r2 r3 t0 t1 t2 t3
  where "ChnlMode s = [m0, m1, m2, m3]"
    and "PatchModeState s = [[a0, a1, a2, a3], [b0, b1, b2, b3], [c0, c1, c2, c3], [d0, d1, d2, d3]]"
    and "PatchChnlState s = [[p0, p1, p2, p3], [q0, q1, q2, q3], [r0, r1, r2, r3], [t0, t1, t2, t3]]"
proof -
  from assms have l: "length (ChnlMode s) = 4"
    "length (PatchModeState s) = 4" "list_all (\<lambda>r. length r = 4) (PatchModeState s)"
    "length (PatchChnlState s) = 4" "list_all (\<lambda>r. length r = 4) (PatchChnlState s)"
    by (simp_all add: shape_def)
  from len4 [OF l(1)] obtain m0 m1 m2 m3 where cm: "ChnlMode s = [m0, m1, m2, m3]" by auto
  from len4 [OF l(2)] obtain ra rb rc rd where pm0: "PatchModeState s = [ra, rb, rc, rd]" by auto
  with l(3) have "length ra = 4" "length rb = 4" "length rc = 4" "length rd = 4" by simp_all
  then obtain a0 a1 a2 a3 b0 b1 b2 b3 c0 c1 c2 c3 d0 d1 d2 d3
    where "ra = [a0, a1, a2, a3]" "rb = [b0, b1, b2, b3]" "rc = [c0, c1, c2, c3]" "rd = [d0, d1, d2, d3]"
    by (metis len4)
  with pm0 have pm: "PatchModeState s = [[a0, a1, a2, a3], [b0, b1, b2, b3], [c0, c1, c2, c3], [d0, d1, d2, d3]]"
    by simp
  from len4 [OF l(4)] obtain sa sb sc sd where pc0: "PatchChnlState s = [sa, sb, sc, sd]" by auto
  with l(5) have "length sa = 4" "length sb = 4" "length sc = 4" "length sd = 4" by simp_all
  then obtain p0 p1 p2 p3 q0 q1 q2 q3 r0 r1 r2 r3 t0 t1 t2 t3
    where "sa = [p0, p1, p2, p3]" "sb = [q0, q1, q2, q3]" "sc = [r0, r1, r2, r3]" "sd = [t0, t1, t2, t3]"
    by (metis len4)
  with pc0 have pc: "PatchChnlState s = [[p0, p1, p2, p3], [q0, q1, q2, q3], [r0, r1, r2, r3], [t0, t1, t2, t3]]"
    by simp
  from cm pm pc show ?thesis by (rule that)
qed


lemma cond_upd:
  "(if c then s\<lparr>Btn0Pressed := True\<rparr> else s) = s\<lparr>Btn0Pressed := (c \<or> Btn0Pressed s)\<rparr>"
  "(if c then s\<lparr>Btn0Released := True\<rparr> else s) = s\<lparr>Btn0Released := (c \<or> Btn0Released s)\<rparr>"
  "(if c then s\<lparr>Btn1Pressed := True\<rparr> else s) = s\<lparr>Btn1Pressed := (c \<or> Btn1Pressed s)\<rparr>"
  "(if c then s\<lparr>Btn1Released := True\<rparr> else s) = s\<lparr>Btn1Released := (c \<or> Btn1Released s)\<rparr>"
  by (cases c; simp)+

lemma CheckBtns_eq0:
  "CheckBtns lv s = s\<lparr>Btn0State := fst lv, Btn1State := snd lv,
     Btn0Pressed := ((\<not> fst lv \<and> \<not> Btn0Pressed s \<and> \<not> Btn0Released s) \<or> Btn0Pressed s),
     Btn0Released := ((fst lv \<and> ((\<not> fst lv \<and> \<not> Btn0Pressed s \<and> \<not> Btn0Released s) \<or> Btn0Pressed s)
                        \<and> \<not> Btn0Released s) \<or> Btn0Released s),
     Btn1Pressed := ((\<not> snd lv \<and> \<not> Btn1Pressed s \<and> \<not> Btn1Released s) \<or> Btn1Pressed s),
     Btn1Released := ((snd lv \<and> ((\<not> snd lv \<and> \<not> Btn1Pressed s \<and> \<not> Btn1Released s) \<or> Btn1Pressed s)
                        \<and> \<not> Btn1Released s) \<or> Btn1Released s)\<rparr>"
  unfolding CheckBtns_def Let_def cond_upd
  by simp

lemma CheckBtns_eq:
  "CheckBtns lv s = s\<lparr>Btn0State := fst lv, Btn1State := snd lv,
     Btn0Pressed := (Btn0Pressed s \<or> (\<not> fst lv \<and> \<not> Btn0Released s)),
     Btn0Released := (Btn0Released s \<or> (fst lv \<and> Btn0Pressed s)),
     Btn1Pressed := (Btn1Pressed s \<or> (\<not> snd lv \<and> \<not> Btn1Released s)),
     Btn1Released := (Btn1Released s \<or> (snd lv \<and> Btn1Pressed s))\<rparr>"
proof -
  have "((\<not> fst lv \<and> \<not> Btn0Pressed s \<and> \<not> Btn0Released s) \<or> Btn0Pressed s)
          = (Btn0Pressed s \<or> (\<not> fst lv \<and> \<not> Btn0Released s))"
       "((fst lv \<and> ((\<not> fst lv \<and> \<not> Btn0Pressed s \<and> \<not> Btn0Released s) \<or> Btn0Pressed s)
                        \<and> \<not> Btn0Released s) \<or> Btn0Released s)
          = (Btn0Released s \<or> (fst lv \<and> Btn0Pressed s))"
       "((\<not> snd lv \<and> \<not> Btn1Pressed s \<and> \<not> Btn1Released s) \<or> Btn1Pressed s)
          = (Btn1Pressed s \<or> (\<not> snd lv \<and> \<not> Btn1Released s))"
       "((snd lv \<and> ((\<not> snd lv \<and> \<not> Btn1Pressed s \<and> \<not> Btn1Released s) \<or> Btn1Pressed s)
                        \<and> \<not> Btn1Released s) \<or> Btn1Released s)
          = (Btn1Released s \<or> (snd lv \<and> Btn1Pressed s))"
    by blast+
  then show ?thesis by (simp only: CheckBtns_eq0)
qed

lemma DigPotsInit_eq:
  "DigPotsInit s = s\<lparr>PotWrites := PotWrites s @
     [(0, ExpVal s), (1, ExpVal s), (2, ExpVal s), (3, ExpVal s)]\<rparr>"
  by (simp add: DigPotsInit_def WritePotSPI_def)

lemma setup_fn_ReadNvmData:
  assumes "length rom = 10"
  shows "\<exists>t. setup_fn rom ex sel lv = ReadNvmData t \<and> shape t \<and> Eeprom t = rom
            \<and> \<not> SaveMode t \<and> \<not> Fault t \<and> SelIndex t = 0 \<and> PatchActive t = 255"
proof -
  let ?t = "DigPotsInit (CheckBtns lv ((init_state rom)\<lparr>SelVal := ucast (drop_bit 8 sel),
               LastSelVal := ucast (drop_bit 8 sel), ExpVal := ucast (drop_bit 2 ex)\<rparr>))"
  have 1: "setup_fn rom ex sel lv = ReadNvmData ?t"
    by (simp add: setup_fn_def Let_def)
  have 2: "shape ?t \<and> Eeprom ?t = rom \<and> \<not> SaveMode ?t \<and> \<not> Fault ?t
      \<and> SelIndex ?t = 0 \<and> PatchActive ?t = 255"
    using assms by (simp add: DigPotsInit_eq CheckBtns_eq shape_def init_state_def)
  from 1 2 show ?thesis by blast
qed

lemma ReadNvmData_in_range:
  assumes "shape t"
  shows "shape (ReadNvmData t)" and "tapers_ok (ReadNvmData t)"
  using assms
  by (simp_all add: ReadNvmData_shape [OF assms] shape_def tapers_ok_def and3_le3)

lemma record_bytes_decode:
  assumes "shape s" and "tapers_ok s"
  shows "map (\<lambda>j. drop_bit (2 * j) (record_bytes s ! 0) AND 3) [0, 1, 2, 3] = ChnlMode s"
    and "map (\<lambda>i. map (\<lambda>j. bit (record_bytes s ! (1 + 2 * i)) j) [0, 1, 2, 3]) [0, 1, 2, 3]
           = PatchChnlState s"
    and "map (\<lambda>i. map (\<lambda>j. drop_bit (2 * j) (record_bytes s ! (2 + 2 * i)) AND 3) [0, 1, 2, 3])
           [0, 1, 2, 3] = PatchModeState s"
    and "(record_bytes s ! 9 \<noteq> 0) = PatchMode s"
proof -
  from assms(1) obtain m0 m1 m2 m3 a0 a1 a2 a3 b0 b1 b2 b3 c0 c1 c2 c3 d0 d1 d2 d3
          p0 p1 p2 p3 q0 q1 q2 q3 r0 r1 r2 r3 t0 t1 t2 t3
  where cm: "ChnlMode s = [m0, m1, m2, m3]"
    and pm: "PatchModeState s = [[a0, a1, a2, a3], [b0, b1, b2, b3], [c0, c1, c2, c3], [d0, d1, d2, d3]]"
    and pc: "PatchChnlState s = [[p0, p1, p2, p3], [q0, q1, q2, q3], [r0, r1, r2, r3], [t0, t1, t2, t3]]"
    by (rule shape_lists)
  from assms(2) have le: "m0 \<le> 3" "m1 \<le> 3" "m2 \<le> 3" "m3 \<le> 3"
    "a0 \<le> 3" "a1 \<le> 3" "a2 \<le> 3" "a3 \<le> 3" "b0 \<le> 3" "b1 \<le> 3" "b2 \<le> 3" "b3 \<le> 3"
    "c0 \<le> 3" "c1 \<le> 3" "c2 \<le> 3" "c3 \<le> 3" "d0 \<le> 3" "d1 \<le> 3" "d2 \<le> 3" "d3 \<le> 3"
    by (simp_all add: tapers_ok_def cm pm)
  show "map (\<lambda>j. drop_bit (2 * j) (record_bytes s ! 0) AND 3) [0, 1, 2, 3] = ChnlMode s"
    by (simp add: record_bytes_def cm unpack_modes le)
  show "map (\<lambda>i. map (\<lambda>j. bit (record_bytes s ! (1 + 2 * i)) j) [0, 1, 2, 3]) [0, 1, 2, 3]
           = PatchChnlState s"
    by (simp add: record_bytes_def pc bit_flags4)
  show "map (\<lambda>i. map (\<lambda>j. drop_bit (2 * j) (record_bytes s ! (2 + 2 * i)) AND 3) [0, 1, 2, 3])
           [0, 1, 2, 3] = PatchModeState s"
    by (simp add: record_bytes_def pm unpack_modes le)
  show "(record_bytes s ! 9 \<noteq> 0) = PatchMode s"
    by (simp add: record_bytes_def)
qed

lemma nth_map4: "j < 4 \<Longrightarrow> map f [0, 1, 2, 3] ! j = f j"
  by (auto dest!: lt4_cases)

lemma demo_valid: "shape demo \<and> tapers_ok demo \<and> mode_of demo \<noteq> Save"
  by (simp add: demo_def init_state_def shape_def tapers_ok_def mode_of_def)

text \<open>
  C2. For every state whose arrays have their declared sizes, whose tapers are all in
  0..3 and whose mode is Normal or Patch: decoding what the encoder has just written
  changes nothing, and a restart on the bytes that the encoder has put in the EEPROM
  comes up with the same channel tapers, the same patches and the same mode.
\<close>

theorem C2_codec_roundtrip:
  assumes "shape s" and "tapers_ok s" and "mode_of s \<noteq> Save"
  shows "ReadNvmData (UpdateNvmData s) = UpdateNvmData s
    \<and> ChnlMode (setup_fn (Eeprom (UpdateNvmData s)) ex sel lv) = ChnlMode s
    \<and> PatchChnlState (setup_fn (Eeprom (UpdateNvmData s)) ex sel lv) = PatchChnlState s
    \<and> PatchModeState (setup_fn (Eeprom (UpdateNvmData s)) ex sel lv) = PatchModeState s
    \<and> mode_of (setup_fn (Eeprom (UpdateNvmData s)) ex sel lv) = mode_of s"
proof -
  from assms(1) have l: "length (NvmData s) = 10" "length (Eeprom s) = 10"
    by (simp_all add: shape_def)
  note up = UpdateNvmData_eq [OF l]
  note dec = record_bytes_decode [OF assms(1,2)]
  have lr: "length (record_bytes s) = 10" by (simp add: record_bytes_def)
  have sh: "shape (UpdateNvmData s)"
    using assms(1) by (simp add: up shape_def lr)
  have ee: "Eeprom (UpdateNvmData s) = record_bytes s" by (simp add: up)
  have 1: "ReadNvmData (UpdateNvmData s) = UpdateNvmData s"
    by (simp only: ReadNvmData_shape [OF sh] ee dec) (simp add: up)
  from setup_fn_ReadNvmData [of "record_bytes s" ex sel lv] lr obtain t
    where t: "setup_fn (record_bytes s) ex sel lv = ReadNvmData t" "shape t"
      "Eeprom t = record_bytes s" "\<not> SaveMode t"
    by blast
  have rd: "ChnlMode (ReadNvmData t) = ChnlMode s" "PatchChnlState (ReadNvmData t) = PatchChnlState s"
    "PatchModeState (ReadNvmData t) = PatchModeState s" "PatchMode (ReadNvmData t) = PatchMode s"
    "SaveMode (ReadNvmData t) = False"
    by (simp_all only: ReadNvmData_shape [OF t(2)] t(3) dec) (simp_all add: t(4))
  from assms(3) have "mode_of (ReadNvmData t) = mode_of s"
    by (simp add: mode_of_def rd split: if_splits)
  with 1 rd show ?thesis by (simp add: ee t(1))
qed

theorem C2_codec_roundtrip_witness:
  "shape demo \<and> tapers_ok demo \<and> mode_of demo \<noteq> Save
   \<and> ReadNvmData (UpdateNvmData demo) = UpdateNvmData demo
   \<and> ChnlMode (setup_fn (Eeprom (UpdateNvmData demo)) 0 0 (True, True)) = [0, 1, 2, 3]"
  using C2_codec_roundtrip [of demo 0 0 "(True, True)"] demo_valid
  by (simp add: demo_def)

text \<open>
  C3. For every state with arrays of the declared sizes and tapers in 0..3, the encoder
  leaves ten bytes in \<^verbatim>\<open>NvmData\<close> and the same ten in the EEPROM: the two-bit field
  \<open>j\<close> of byte 0 is the taper of channel \<open>j\<close>; bit \<open>j\<close> of byte \<open>1 + 2i\<close> is the
  enabled flag of channel \<open>j\<close> in patch \<open>i\<close> and its bits 4..7 are clear; field \<open>j\<close>
  of byte \<open>2 + 2i\<close> is the taper of channel \<open>j\<close> in patch \<open>i\<close>; byte 9 is 1 in
  Patch mode and 0 in Normal and in Save mode.
\<close>

theorem C3_record_layout:
  assumes "shape s" and "tapers_ok s"
  shows "length (NvmData (UpdateNvmData s)) = 10
    \<and> Eeprom (UpdateNvmData s) = NvmData (UpdateNvmData s)
    \<and> (\<forall>j<4. field2 (NvmData (UpdateNvmData s) ! 0) j = ChnlMode s ! j)
    \<and> (\<forall>i<4. \<forall>j<4. bit (NvmData (UpdateNvmData s) ! (1 + 2 * i)) j = PatchChnlState s ! i ! j)
    \<and> (\<forall>i<4. \<forall>j\<ge>4. \<not> bit (NvmData (UpdateNvmData s) ! (1 + 2 * i)) j)
    \<and> (\<forall>i<4. \<forall>j<4. field2 (NvmData (UpdateNvmData s) ! (2 + 2 * i)) j = PatchModeState s ! i ! j)
    \<and> NvmData (UpdateNvmData s) ! 9 = (if mode_of s = Patch then 1 else 0)"
proof -
  from assms(1) have l: "length (NvmData s) = 10" "length (Eeprom s) = 10"
    by (simp_all add: shape_def)
  have nv: "NvmData (UpdateNvmData s) = record_bytes s" "Eeprom (UpdateNvmData s) = record_bytes s"
    by (simp_all add: UpdateNvmData_eq [OF l])
  note dec = record_bytes_decode [OF assms, symmetric]
  have 1: "length (record_bytes s) = 10" by (simp add: record_bytes_def)
  have 3: "\<forall>j<4. field2 (record_bytes s ! 0) j = ChnlMode s ! j"
    by (subst dec(1)) (auto simp: field2_def and3_take_bit dest!: lt4_cases)
  have 4: "\<forall>i<4. \<forall>j<4. bit (record_bytes s ! (1 + 2 * i)) j = PatchChnlState s ! i ! j"
    by (subst dec(2)) (auto dest!: lt4_cases)
  have 5: "\<forall>i<4. \<forall>j\<ge>4. \<not> bit (record_bytes s ! (1 + 2 * i)) j"
    by (auto simp: record_bytes_def bit_flags4 dest!: lt4_cases)
  have 6: "\<forall>i<4. \<forall>j<4. field2 (record_bytes s ! (2 + 2 * i)) j = PatchModeState s ! i ! j"
    by (subst dec(3)) (auto simp: field2_def and3_take_bit dest!: lt4_cases)
  have 7: "record_bytes s ! 9 = (if mode_of s = Patch then 1 else 0)"
    by (simp add: record_bytes_def mode_of_def)
  from 1 3 4 5 6 7 show ?thesis unfolding nv by blast
qed

theorem C3_record_layout_witness:
  "shape demo \<and> tapers_ok demo
   \<and> field2 (NvmData (UpdateNvmData demo) ! 0) 3 = 3
   \<and> bit (NvmData (UpdateNvmData demo) ! 5) 2
   \<and> field2 (NvmData (UpdateNvmData demo) ! 6) 2 = 2
   \<and> NvmData (UpdateNvmData demo) ! 9 = 0"
proof -
  have v: "shape demo" "tapers_ok demo" using demo_valid by simp_all
  have d: "ChnlMode demo ! 3 = 3" "PatchChnlState demo ! 2 ! 2" "PatchModeState demo ! 2 ! 2 = 2"
    "mode_of demo = Normal"
    by (simp_all add: demo_def init_state_def mode_of_def)
  from C3_record_layout [OF v] have
    a: "\<forall>j<4. field2 (NvmData (UpdateNvmData demo) ! 0) j = ChnlMode demo ! j" and
    b: "\<forall>i<4. \<forall>j<4. bit (NvmData (UpdateNvmData demo) ! (1 + 2 * i)) j = PatchChnlState demo ! i ! j" and
    c: "\<forall>i<4. \<forall>j<4. field2 (NvmData (UpdateNvmData demo) ! (2 + 2 * i)) j = PatchModeState demo ! i ! j" and
    e: "NvmData (UpdateNvmData demo) ! 9 = (if mode_of demo = Patch then 1 else 0)"
    by blast+
  from a [rule_format, of 3] b [rule_format, of 2 2] c [rule_format, of 2 2] e
  have "field2 (NvmData (UpdateNvmData demo) ! 0) 3 = ChnlMode demo ! 3"
    "bit (NvmData (UpdateNvmData demo) ! 5) 2 = PatchChnlState demo ! 2 ! 2"
    "field2 (NvmData (UpdateNvmData demo) ! 6) 2 = PatchModeState demo ! 2 ! 2"
    "NvmData (UpdateNvmData demo) ! 9 = (if mode_of demo = Patch then 1 else 0)"
    by simp_all
  with v d show ?thesis by simp
qed

text \<open>
  C10. Whatever ten bytes the EEPROM holds at start-up, the state after \<^verbatim>\<open>setup()\<close>
  has arrays of the declared sizes and every taper in 0..3: each channel taper and each
  patch taper is a two-bit field of its byte, each patch flag is one bit of its byte, and
  the mode is Normal when byte 9 is zero and Patch otherwise.
\<close>

theorem C10_decode_in_range:
  assumes "length rom = 10"
  shows "shape (setup_fn rom ex sel lv) \<and> tapers_ok (setup_fn rom ex sel lv)
    \<and> (\<forall>j<4. ChnlMode (setup_fn rom ex sel lv) ! j = field2 (rom ! 0) j)
    \<and> (\<forall>i<4. \<forall>j<4. PatchChnlState (setup_fn rom ex sel lv) ! i ! j = bit (rom ! (1 + 2 * i)) j)
    \<and> (\<forall>i<4. \<forall>j<4. PatchModeState (setup_fn rom ex sel lv) ! i ! j = field2 (rom ! (2 + 2 * i)) j)
    \<and> mode_of (setup_fn rom ex sel lv) = (if rom ! 9 = 0 then Normal else Patch)"
proof -
  from setup_fn_ReadNvmData [OF assms] obtain t
    where t: "setup_fn rom ex sel lv = ReadNvmData t" "shape t" "Eeprom t = rom" "\<not> SaveMode t"
    by blast
  have rd: "ChnlMode (ReadNvmData t) = map (\<lambda>j. drop_bit (2 * j) (rom ! 0) AND 3) [0, 1, 2, 3]"
    "PatchChnlState (ReadNvmData t) =
       map (\<lambda>i. map (\<lambda>j. bit (rom ! (1 + 2 * i)) j) [0, 1, 2, 3]) [0, 1, 2, 3]"
    "PatchModeState (ReadNvmData t) =
       map (\<lambda>i. map (\<lambda>j. drop_bit (2 * j) (rom ! (2 + 2 * i)) AND 3) [0, 1, 2, 3]) [0, 1, 2, 3]"
    "PatchMode (ReadNvmData t) = (rom ! 9 \<noteq> 0)" "SaveMode (ReadNvmData t) = False"
    by (simp_all only: ReadNvmData_shape [OF t(2)] t(3)) (simp_all add: t(4))
  have 1: "shape (ReadNvmData t) \<and> tapers_ok (ReadNvmData t)"
    using ReadNvmData_in_range [OF t(2)] by simp
  have 2: "\<forall>j<4. ChnlMode (ReadNvmData t) ! j = field2 (rom ! 0) j"
    by (subst rd(1)) (auto simp: field2_def and3_take_bit dest!: lt4_cases)
  have 3: "\<forall>i<4. \<forall>j<4. PatchChnlState (ReadNvmData t) ! i ! j = bit (rom ! (1 + 2 * i)) j"
    by (subst rd(2)) (auto dest!: lt4_cases)
  have 4: "\<forall>i<4. \<forall>j<4. PatchModeState (ReadNvmData t) ! i ! j = field2 (rom ! (2 + 2 * i)) j"
    by (subst rd(3)) (auto simp: field2_def and3_take_bit dest!: lt4_cases)
  have 5: "mode_of (ReadNvmData t) = (if rom ! 9 = 0 then Normal else Patch)"
    by (simp add: mode_of_def rd)
  from 1 2 3 4 5 show ?thesis unfolding t(1) by blast
qed

theorem C10_decode_in_range_witness:
  "length [255, 255, 255, 255, 255, 255, 255, 255, 255, 255 :: byte] = 10
   \<and> tapers_ok (setup_fn [255, 255, 255, 255, 255, 255, 255, 255, 255, 255] 0 0 (True, True))
   \<and> ChnlMode (setup_fn [255, 255, 255, 255, 255, 255, 255, 255, 255, 255] 0 0 (True, True)) ! 2 = 3
   \<and> mode_of (setup_fn [255, 255, 255, 255, 255, 255, 255, 255, 255, 255] 0 0 (True, True)) = Patch"
proof -
  have l: "length [255, 255, 255, 255, 255, 255, 255, 255, 255, 255 :: byte] = 10" by simp
  have f: "field2 255 2 = 3" by (simp add: field2_def)
  from C10_decode_in_range [OF l, of 0 0 "(True, True)"] f show ?thesis by simp
qed

section \<open>Which variables each routine leaves alone\<close>

text \<open>
  Each lemma says: an observation \<open>X\<close> of the state that does not look at the variables
  a routine writes has the same value after the routine.
\<close>

lemma foldl_keeps:
  assumes "\<And>t i. X (f t i) = X t"
  shows "X (foldl f s xs) = X s"
  by (induction xs arbitrary: s) (simp_all add: assms)

lemma CheckLeds_frame:
  assumes "\<And>t c. X (t\<lparr>ChnlLedState := c\<rparr>) = X t"
    and "\<And>t m. X (t\<lparr>ModeLedState := m\<rparr>) = X t"
    and "\<And>t f. X (t\<lparr>Fault := f\<rparr>) = X t"
  shows "X (CheckLeds ram s) = X s"
proof -
  have p: "X (LedPatchStep ram t i) = X t" for t i
    by (simp add: LedPatchStep_def Let_def assms)
  have n: "X (LedNormalStep t i) = X t" for t i
    by (simp add: LedNormalStep_def Let_def assms)
  have m: "X (LedNormalMode t) = X t" for t
    by (simp add: LedNormalMode_def assms)
  have v: "X (LedSaveStep t i) = X t" for t i
    by (simp add: LedSaveStep_def Let_def assms)
  show ?thesis
    unfolding CheckLeds_def
    by (simp add: p n m v)
qed

lemma CheckBtns_frame:
  assumes "\<And>t a. X (t\<lparr>Btn0State := a\<rparr>) = X t" and "\<And>t a. X (t\<lparr>Btn1State := a\<rparr>) = X t"
    and "\<And>t a. X (t\<lparr>Btn0Pressed := a\<rparr>) = X t" and "\<And>t a. X (t\<lparr>Btn0Released := a\<rparr>) = X t"
    and "\<And>t a. X (t\<lparr>Btn1Pressed := a\<rparr>) = X t" and "\<And>t a. X (t\<lparr>Btn1Released := a\<rparr>) = X t"
  shows "X (CheckBtns lv s) = X s"
  by (simp only: CheckBtns_eq assms)

lemma ClrBtns_frame:
  assumes "\<And>t a. X (t\<lparr>Btn0Pressed := a\<rparr>) = X t" and "\<And>t a. X (t\<lparr>Btn0Released := a\<rparr>) = X t"
    and "\<And>t a. X (t\<lparr>Btn1Pressed := a\<rparr>) = X t" and "\<And>t a. X (t\<lparr>Btn1Released := a\<rparr>) = X t"
  shows "X (ClrBtns s) = X s"
  by (simp only: ClrBtns_def assms)

lemma WaitBothBtns_frame:
  assumes "\<And>t a. X (t\<lparr>Btn0State := a\<rparr>) = X t" and "\<And>t a. X (t\<lparr>Btn1State := a\<rparr>) = X t"
    and "\<And>t a. X (t\<lparr>Btn0Pressed := a\<rparr>) = X t" and "\<And>t a. X (t\<lparr>Btn0Released := a\<rparr>) = X t"
    and "\<And>t a. X (t\<lparr>Btn1Pressed := a\<rparr>) = X t" and "\<And>t a. X (t\<lparr>Btn1Released := a\<rparr>) = X t"
    and "WaitBothBtns lvs s = Some s'"
  shows "X s' = X s"
  using assms(7)
proof (induction lvs arbitrary: s)
  case Nil
  then show ?case by (simp split: if_splits)
next
  case (Cons lv lvs)
  show ?case
  proof (cases "\<not> Btn0Released s \<and> \<not> Btn1Released s")
    case True
    with Cons.prems have "WaitBothBtns lvs (CheckBtns lv s) = Some s'" by simp
    then have "X s' = X (CheckBtns lv s)" by (rule Cons.IH)
    then show ?thesis by (simp only: CheckBtns_frame [of X, OF assms(1-6)])
  next
    case False
    with Cons.prems show ?thesis by auto
  qed
qed

lemma WaitBtn1_frame:
  assumes "\<And>t a. X (t\<lparr>Btn0State := a\<rparr>) = X t" and "\<And>t a. X (t\<lparr>Btn1State := a\<rparr>) = X t"
    and "\<And>t a. X (t\<lparr>Btn0Pressed := a\<rparr>) = X t" and "\<And>t a. X (t\<lparr>Btn0Released := a\<rparr>) = X t"
    and "\<And>t a. X (t\<lparr>Btn1Pressed := a\<rparr>) = X t" and "\<And>t a. X (t\<lparr>Btn1Released := a\<rparr>) = X t"
    and "WaitBtn1 lvs s = Some s'"
  shows "X s' = X s"
  using assms(7)
proof (induction lvs arbitrary: s)
  case Nil
  then show ?case by (simp split: if_splits)
next
  case (Cons lv lvs)
  show ?case
  proof (cases "\<not> Btn1Released s")
    case True
    with Cons.prems have "WaitBtn1 lvs (CheckBtns lv s) = Some s'" by simp
    then have "X s' = X (CheckBtns lv s)" by (rule Cons.IH)
    then show ?thesis by (simp only: CheckBtns_frame [of X, OF assms(1-6)])
  next
    case False
    with Cons.prems show ?thesis by auto
  qed
qed

lemma UpdateNvmData_frame:
  assumes "\<And>t a. X (t\<lparr>NvmData := a\<rparr>) = X t" and "\<And>t a. X (t\<lparr>Eeprom := a\<rparr>) = X t"
  shows "X (UpdateNvmData s) = X s"
  by (simp only: UpdateNvmData_def Let_def assms)

lemmas keeps [simp] =
  CheckLeds_frame [of PotWrites, simplified] CheckLeds_frame [of ExpVal, simplified]
  CheckLeds_frame [of SelVal, simplified] CheckLeds_frame [of SelIndex, simplified]
  CheckLeds_frame [of PatchActive, simplified] CheckLeds_frame [of SelValChng, simplified]
  CheckLeds_frame [of PatchMode, simplified] CheckLeds_frame [of SaveMode, simplified]
  ClrBtns_frame [of PotWrites, simplified] ClrBtns_frame [of ExpVal, simplified]
  ClrBtns_frame [of SelVal, simplified] ClrBtns_frame [of SelIndex, simplified]
  ClrBtns_frame [of PatchActive, simplified] ClrBtns_frame [of SelValChng, simplified]
  ClrBtns_frame [of PatchMode, simplified] ClrBtns_frame [of SaveMode, simplified]
  UpdateNvmData_frame [of PotWrites, simplified] UpdateNvmData_frame [of ExpVal, simplified]
  UpdateNvmData_frame [of SelVal, simplified] UpdateNvmData_frame [of SelIndex, simplified]
  UpdateNvmData_frame [of PatchActive, simplified] UpdateNvmData_frame [of SelValChng, simplified]
  UpdateNvmData_frame [of PatchMode, simplified] UpdateNvmData_frame [of SaveMode, simplified]
  CheckBtns_frame [of PotWrites, simplified] CheckBtns_frame [of ExpVal, simplified]
  CheckBtns_frame [of SelVal, simplified] CheckBtns_frame [of SelIndex, simplified]
  CheckBtns_frame [of PatchActive, simplified] CheckBtns_frame [of SelValChng, simplified]
  CheckBtns_frame [of PatchMode, simplified] CheckBtns_frame [of SaveMode, simplified]

lemmas wait_keeps =
  WaitBothBtns_frame [of PotWrites, simplified] WaitBothBtns_frame [of ExpVal, simplified]
  WaitBothBtns_frame [of SelVal, simplified] WaitBothBtns_frame [of SelIndex, simplified]
  WaitBothBtns_frame [of PatchActive, simplified] WaitBothBtns_frame [of SelValChng, simplified]
  WaitBothBtns_frame [of PatchMode, simplified] WaitBothBtns_frame [of SaveMode, simplified]
  WaitBtn1_frame [of PotWrites, simplified] WaitBtn1_frame [of ExpVal, simplified]
  WaitBtn1_frame [of SelVal, simplified] WaitBtn1_frame [of SelIndex, simplified]
  WaitBtn1_frame [of PatchActive, simplified] WaitBtn1_frame [of SelValChng, simplified]
  WaitBtn1_frame [of PatchMode, simplified] WaitBtn1_frame [of SaveMode, simplified]

lemma NextSelIndex_le: "SelIndex (NextSelIndex s) \<le> 3"
  by (simp add: NextSelIndex_def Let_def not_less)

lemma NextSelIndex_keeps [simp]:
  "PotWrites (NextSelIndex s) = PotWrites s" "ExpVal (NextSelIndex s) = ExpVal s"
  "SelVal (NextSelIndex s) = SelVal s" "PatchActive (NextSelIndex s) = PatchActive s"
  "SelValChng (NextSelIndex s) = SelValChng s"
  "PatchMode (NextSelIndex s) = PatchMode s" "SaveMode (NextSelIndex s) = SaveMode s"
  by (simp_all add: NextSelIndex_def Let_def)

lemma ToggleChnl_keeps [simp]:
  "PotWrites (ToggleChnl s) = PotWrites s" "ExpVal (ToggleChnl s) = ExpVal s"
  "SelVal (ToggleChnl s) = SelVal s" "PatchActive (ToggleChnl s) = PatchActive s"
  "SelIndex (ToggleChnl s) = SelIndex s" "SelValChng (ToggleChnl s) = SelValChng s"
  "PatchMode (ToggleChnl s) = PatchMode s" "SaveMode (ToggleChnl s) = SaveMode s"
  by (simp_all add: ToggleChnl_def)

lemma SetChnlMode_keeps [simp]:
  "PotWrites (SetChnlMode s) = PotWrites s" "ExpVal (SetChnlMode s) = ExpVal s"
  "SelVal (SetChnlMode s) = SelVal s" "PatchActive (SetChnlMode s) = PatchActive s"
  "SelIndex (SetChnlMode s) = SelIndex s" "SelValChng (SetChnlMode s) = SelValChng s"
  "PatchMode (SetChnlMode s) = PatchMode s" "SaveMode (SetChnlMode s) = SaveMode s"
  by (simp_all add: SetChnlMode_def)

lemma CopyToPatch_keeps [simp]:
  "PotWrites (CopyToPatch s) = PotWrites s" "ExpVal (CopyToPatch s) = ExpVal s"
  "SelVal (CopyToPatch s) = SelVal s" "PatchActive (CopyToPatch s) = PatchActive s"
  "SelIndex (CopyToPatch s) = SelIndex s" "SelValChng (CopyToPatch s) = SelValChng s"
  "PatchMode (CopyToPatch s) = PatchMode s" "SaveMode (CopyToPatch s) = SaveMode s"
  by (simp_all add: CopyToPatch_def)

lemma NormalButtons_keeps:
  assumes "NormalButtons ram lvs s = Some t"
  shows "PotWrites t = PotWrites s" and "ExpVal t = ExpVal s" and "SelVal t = SelVal s"
    and "PatchActive t = PatchActive s" and "SelIndex t \<le> 3 \<or> SelIndex t = SelIndex s"
  using assms
  by (auto simp: NormalButtons_def Let_def NextSelIndex_le split: if_splits dest: wait_keeps)

lemma PatchButtons_keeps:
  assumes "PatchButtons ram lvs s = Some t"
  shows "PotWrites t = PotWrites s" and "ExpVal t = ExpVal s" and "SelVal t = SelVal s"
    and "PatchActive t = PatchActive s \<or> PatchActive t = 255 \<or> PatchActive t = SelIndex s"
    and "SelIndex t \<le> 3 \<or> SelIndex t = SelIndex s"
  using assms
  by (auto simp: PatchButtons_def Let_def NextSelIndex_le split: if_splits dest: wait_keeps)

lemma SaveButtons_keeps:
  assumes "SaveButtons ram lvs s = Some t"
  shows "PotWrites t = PotWrites s" and "ExpVal t = ExpVal s" and "SelVal t = SelVal s"
    and "PatchActive t = PatchActive s"
  using assms
  by (auto simp: SaveButtons_def Let_def split: if_splits dest: wait_keeps)

lemma NormalSelector_keeps:
  "PotWrites (NormalSelector ram s) = PotWrites s" "ExpVal (NormalSelector ram s) = ExpVal s"
  "PatchActive (NormalSelector ram s) = PatchActive s" "SelIndex (NormalSelector ram s) = SelIndex s"
  by (simp_all add: NormalSelector_def)

lemma PatchSelector_keeps:
  "PotWrites (PatchSelector ram s) = PotWrites s" "ExpVal (PatchSelector ram s) = ExpVal s"
  "PatchActive (PatchSelector ram s) = PatchActive s"
  "SelIndex (PatchSelector ram s) = SelIndex s \<or> SelIndex (PatchSelector ram s) = SelVal s"
  by (simp_all add: PatchSelector_def)

section \<open>Output production\<close>

lemma WritePotSPI_channel:
  "i < 4 \<Longrightarrow> WritePotSPI (of_nat i) v t = t\<lparr>PotWrites := PotWrites t @ [(of_nat i, v)]\<rparr>"
  by (auto simp: WritePotSPI_def dest!: lt4_cases)

lemma NormalOutputs_fold:
  assumes "\<forall>i\<in>set xs. i < 4"
  shows "foldl (\<lambda>t i. if ChnlState t ! i
                   then (case TaperMapper (ExpVal t) (ChnlMode t ! i) of
                           Some v \<Rightarrow> WritePotSPI (of_nat i) v t
                         | None \<Rightarrow> t)
                   else t) s xs
     = s\<lparr>PotWrites := PotWrites s @
          concat (map (channel_output (ExpVal s) (ChnlState s) (ChnlMode s)) xs)\<rparr>"
  using assms
proof (induction xs arbitrary: s)
  case Nil
  show ?case by simp
next
  case (Cons x xs)
  from Cons.prems have x: "x < 4" and xs: "\<forall>i\<in>set xs. i < 4" by simp_all
  have step: "(if ChnlState s ! x
               then (case TaperMapper (ExpVal s) (ChnlMode s ! x) of
                       Some v \<Rightarrow> WritePotSPI (of_nat x) v s | None \<Rightarrow> s)
               else s)
             = s\<lparr>PotWrites := PotWrites s @ channel_output (ExpVal s) (ChnlState s) (ChnlMode s) x\<rparr>"
    by (simp add: channel_output_def WritePotSPI_channel [OF x] split: option.split)
  show ?case
    by (simp only: foldl.simps step Cons.IH [OF xs]) simp
qed

lemma NormalOutputs_eq:
  "NormalOutputs s =
     s\<lparr>PotWrites := PotWrites s @ outputs (ExpVal s) (ChnlState s) (ChnlMode s)\<rparr>"
  unfolding NormalOutputs_def outputs_def by (rule NormalOutputs_fold) simp

lemma PatchOutputs_fold:
  assumes "\<forall>i\<in>set xs. i < 4"
  shows "foldl (\<lambda>t i. if PatchChnlState t ! unat (PatchActive t) ! i
                     then (case TaperMapper (ExpVal t) (PatchModeState t ! unat (PatchActive t) ! i) of
                             Some v \<Rightarrow> WritePotSPI (of_nat i) v t
                           | None \<Rightarrow> t)
                     else t) s xs
     = s\<lparr>PotWrites := PotWrites s @
          concat (map (channel_output (ExpVal s) (PatchChnlState s ! unat (PatchActive s))
                         (PatchModeState s ! unat (PatchActive s))) xs)\<rparr>"
  using assms
proof (induction xs arbitrary: s)
  case Nil
  show ?case by simp
next
  case (Cons x xs)
  from Cons.prems have x: "x < 4" and xs: "\<forall>i\<in>set xs. i < 4" by simp_all
  have step: "(if PatchChnlState s ! unat (PatchActive s) ! x
               then (case TaperMapper (ExpVal s) (PatchModeState s ! unat (PatchActive s) ! x) of
                       Some v \<Rightarrow> WritePotSPI (of_nat x) v s | None \<Rightarrow> s)
               else s)
             = s\<lparr>PotWrites := PotWrites s @ channel_output (ExpVal s)
                    (PatchChnlState s ! unat (PatchActive s)) (PatchModeState s ! unat (PatchActive s)) x\<rparr>"
    by (simp add: channel_output_def WritePotSPI_channel [OF x] split: option.split)
  show ?case
    by (simp only: foldl.simps step Cons.IH [OF xs]) simp
qed

lemma PatchOutputs_eq:
  assumes "unat (PatchActive s) < 4"
  shows "PatchOutputs s =
     s\<lparr>PotWrites := PotWrites s @ outputs (ExpVal s) (PatchChnlState s ! unat (PatchActive s))
                                     (PatchModeState s ! unat (PatchActive s))\<rparr>"
proof -
  from assms have c: "PatchActive s < 5"
    by (simp add: word_less_nat_alt)
  show ?thesis
    unfolding PatchOutputs_def outputs_def
    by (simp only: c assms if_True, rule PatchOutputs_fold) simp
qed

lemma idx4: "\<forall>i\<in>set [0, 1, 2, 3 :: nat]. i < 4"
  by simp

lemma PatchOutputs_keeps:
  "PatchActive (PatchOutputs s) = PatchActive s" "ExpVal (PatchOutputs s) = ExpVal s"
  unfolding PatchOutputs_def PatchOutputs_fold [OF idx4] by simp_all

lemma PatchOutputs_none: "PatchActive s = 255 \<Longrightarrow> PatchOutputs s = s"
  by (simp add: PatchOutputs_def)

lemma le3_unat: "(w::byte) \<le> 3 \<Longrightarrow> unat w < 4"
  by (simp add: word_le_nat_alt)

lemma le3_cases:
  assumes "(m::byte) \<le> 3"
  shows "m = 0 \<or> m = 1 \<or> m = 2 \<or> m = 3"
proof -
  from assms have "unat m \<le> 3" by (simp add: word_le_nat_alt)
  then have "unat m = 0 \<or> unat m = 1 \<or> unat m = 2 \<or> unat m = 3" by arith
  then show ?thesis by (simp add: word_unat_eq_iff)
qed

lemma TaperMapper_Some: "m \<le> 3 \<Longrightarrow> \<exists>w. TaperMapper v m = Some w"
  by (auto simp: TaperMapper_def dest!: le3_cases)

lemma Loop_Normal:
  assumes "mode_of s = Normal"
  shows "Loop ram ex sel lvs s =
     LoopNormal ram lvs (CheckSelector sel (s\<lparr>ExpInputVal := ex, ExpVal := ucast (drop_bit 2 ex)\<rparr>))"
  using assms by (simp add: Loop_def Let_def CheckSelector_def mode_of_def split: if_splits)

lemma Loop_Patch:
  assumes "mode_of s = Patch"
  shows "Loop ram ex sel lvs s =
     LoopPatch ram lvs (CheckSelector sel (s\<lparr>ExpInputVal := ex, ExpVal := ucast (drop_bit 2 ex)\<rparr>))"
  using assms by (simp add: Loop_def Let_def CheckSelector_def mode_of_def split: if_splits)

lemma Loop_Save:
  assumes "mode_of s = Save"
  shows "Loop ram ex sel lvs s =
     LoopSave ram lvs (CheckSelector sel (s\<lparr>ExpInputVal := ex, ExpVal := ucast (drop_bit 2 ex)\<rparr>))"
  using assms by (simp add: Loop_def Let_def CheckSelector_def mode_of_def split: if_splits)

lemma CheckSelector_keeps [simp]:
  "PotWrites (CheckSelector sel s) = PotWrites s" "ExpVal (CheckSelector sel s) = ExpVal s"
  "PatchActive (CheckSelector sel s) = PatchActive s" "SelIndex (CheckSelector sel s) = SelIndex s"
  "SelVal (CheckSelector sel s) = ucast (drop_bit 8 sel)"
  "PatchMode (CheckSelector sel s) = PatchMode s" "SaveMode (CheckSelector sel s) = SaveMode s"
  by (simp_all add: CheckSelector_def Let_def)

lemma Loop_outputs:
  assumes "Loop ram ex sel lvs s = Some s'"
  shows "ExpVal s' = ucast (drop_bit 2 ex)
    \<and> (mode_of s = Normal \<longrightarrow>
         PotWrites s' = PotWrites s @ outputs (ExpVal s') (ChnlState s') (ChnlMode s'))
    \<and> (mode_of s = Patch \<and> PatchActive s' \<le> 3 \<longrightarrow>
         PotWrites s' = PotWrites s @ outputs (ExpVal s')
                          (PatchChnlState s' ! unat (PatchActive s'))
                          (PatchModeState s' ! unat (PatchActive s')))
    \<and> (mode_of s = Patch \<and> PatchActive s' = 255 \<longrightarrow> PotWrites s' = PotWrites s)
    \<and> (\<forall>v m. m \<le> 3 \<longrightarrow> (\<exists>w. TaperMapper v m = Some w))"
proof -
  let ?s0 = "CheckSelector sel (s\<lparr>ExpInputVal := ex, ExpVal := ucast (drop_bit 2 ex)\<rparr>)"
  have s0: "PotWrites ?s0 = PotWrites s" "ExpVal ?s0 = ucast (drop_bit 2 ex)" by simp_all
  have n: "ExpVal s' = ucast (drop_bit 2 ex)
      \<and> PotWrites s' = PotWrites s @ outputs (ExpVal s') (ChnlState s') (ChnlMode s')"
    if "mode_of s = Normal"
  proof -
    from assms that obtain t where t: "NormalButtons ram lvs ?s0 = Some t"
      and s': "s' = NormalOutputs (NormalSelector ram t)"
      by (auto simp: Loop_Normal LoopNormal_def)
    let ?u = "NormalSelector ram t"
    have "ExpVal s' = ExpVal ?u" "ChnlState s' = ChnlState ?u" "ChnlMode s' = ChnlMode ?u"
      "PotWrites s' = PotWrites ?u @ outputs (ExpVal ?u) (ChnlState ?u) (ChnlMode ?u)"
      by (simp_all add: s' NormalOutputs_eq)
    then show ?thesis
      by (simp add: NormalSelector_keeps NormalButtons_keeps [OF t] s0)
  qed
  have p: "ExpVal s' = ucast (drop_bit 2 ex)
      \<and> (PatchActive s' \<le> 3 \<longrightarrow> PotWrites s' = PotWrites s @ outputs (ExpVal s')
                          (PatchChnlState s' ! unat (PatchActive s'))
                          (PatchModeState s' ! unat (PatchActive s')))
      \<and> (PatchActive s' = 255 \<longrightarrow> PotWrites s' = PotWrites s)"
    if "mode_of s = Patch"
  proof -
    from assms that obtain t where t: "PatchButtons ram lvs ?s0 = Some t"
      and s': "s' = PatchOutputs (PatchSelector ram t)"
      by (auto simp: Loop_Patch LoopPatch_def)
    let ?u = "PatchSelector ram t"
    have u: "PotWrites ?u = PotWrites s" "ExpVal ?u = ucast (drop_bit 2 ex)"
      by (simp_all add: PatchSelector_keeps PatchButtons_keeps [OF t] s0)
    note pa = PatchOutputs_keeps [of ?u]
    have a: "PotWrites s' = PotWrites s @ outputs (ExpVal s')
                          (PatchChnlState s' ! unat (PatchActive s'))
                          (PatchModeState s' ! unat (PatchActive s'))"
      if "PatchActive s' \<le> 3"
    proof -
      from that have "unat (PatchActive ?u) < 4" by (simp add: s' pa le3_unat)
      from PatchOutputs_eq [OF this] have "PatchOutputs ?u =
        ?u\<lparr>PotWrites := PotWrites ?u @ outputs (ExpVal ?u) (PatchChnlState ?u ! unat (PatchActive ?u))
                                     (PatchModeState ?u ! unat (PatchActive ?u))\<rparr>" .
      then have "ExpVal s' = ExpVal ?u" "PatchChnlState s' = PatchChnlState ?u"
        "PatchModeState s' = PatchModeState ?u" "PatchActive s' = PatchActive ?u"
        "PotWrites s' = PotWrites ?u @ outputs (ExpVal ?u) (PatchChnlState ?u ! unat (PatchActive ?u))
                                     (PatchModeState ?u ! unat (PatchActive ?u))"
        by (simp_all add: s')
      then show ?thesis by (simp add: u)
    qed
    have b: "PotWrites s' = PotWrites s" if "PatchActive s' = 255"
    proof -
      from that have "PatchActive ?u = 255" by (simp add: s' pa)
      from PatchOutputs_none [OF this] show ?thesis by (simp add: s' u)
    qed
    from a b show ?thesis by (simp add: s' pa u)
  qed
  have e: "ExpVal s' = ucast (drop_bit 2 ex)"
  proof (cases "mode_of s")
    case Normal
    with n show ?thesis by simp
  next
    case Patch
    with p show ?thesis by simp
  next
    case Save
    with assms obtain t where t: "SaveButtons ram lvs ?s0 = Some t"
      and s': "s' = t\<lparr>SelIndex := SelVal t, SelValChng := False\<rparr>"
      by (auto simp: Loop_Save LoopSave_def)
    show ?thesis by (simp add: s' SaveButtons_keeps [OF t] s0)
  qed
  from e n p TaperMapper_Some show ?thesis by blast
qed

section \<open>A pass returns once the buttons are up\<close>

lemma WaitBtn1_released: "Btn1Released s \<Longrightarrow> WaitBtn1 lvs s = Some s"
  by (cases lvs) simp_all

lemma WaitBothBtns_released:
  "Btn0Released s \<or> Btn1Released s \<Longrightarrow> WaitBothBtns lvs s = Some s"
  by (cases lvs) auto

lemma WaitBtn1_returns:
  assumes "Btn1Pressed s" and "(True, True) \<in> set lvs"
  shows "\<exists>t. WaitBtn1 lvs s = Some t"
  using assms
proof (induction lvs arbitrary: s)
  case Nil
  then show ?case by simp
next
  case (Cons lv lvs)
  show ?case
  proof (cases "Btn1Released s")
    case True
    then show ?thesis by simp
  next
    case False
    show ?thesis
    proof (cases "lv = (True, True)")
      case True
      with Cons.prems(1) have "Btn1Released (CheckBtns lv s)" by (simp add: CheckBtns_eq)
      then have "WaitBtn1 lvs (CheckBtns lv s) = Some (CheckBtns lv s)" by (rule WaitBtn1_released)
      with False show ?thesis by simp
    next
      case neq: False
      with Cons.prems(2) have in_rest: "(True, True) \<in> set lvs" by auto
      from Cons.prems(1) have "Btn1Pressed (CheckBtns lv s)" by (simp add: CheckBtns_eq)
      from Cons.IH [OF this in_rest] False show ?thesis by simp
    qed
  qed
qed

lemma WaitBothBtns_returns:
  assumes "Btn0Pressed s" and "(True, True) \<in> set lvs"
  shows "\<exists>t. WaitBothBtns lvs s = Some t"
  using assms
proof (induction lvs arbitrary: s)
  case Nil
  then show ?case by simp
next
  case (Cons lv lvs)
  show ?case
  proof (cases "Btn0Released s \<or> Btn1Released s")
    case True
    then show ?thesis by auto
  next
    case False
    show ?thesis
    proof (cases "lv = (True, True)")
      case True
      with Cons.prems(1) have "Btn0Released (CheckBtns lv s)" by (simp add: CheckBtns_eq)
      then have "WaitBothBtns lvs (CheckBtns lv s) = Some (CheckBtns lv s)"
        by (simp add: WaitBothBtns_released)
      with False show ?thesis by simp
    next
      case neq: False
      with Cons.prems(2) have in_rest: "(True, True) \<in> set lvs" by auto
      from Cons.prems(1) have "Btn0Pressed (CheckBtns lv s)" by (simp add: CheckBtns_eq)
      from Cons.IH [OF this in_rest] False show ?thesis by simp
    qed
  qed
qed

lemmas btn_keeps [simp] =
  CheckLeds_frame [of Btn0Pressed, simplified] CheckLeds_frame [of Btn1Pressed, simplified]
  CheckLeds_frame [of Btn0Released, simplified] CheckLeds_frame [of Btn1Released, simplified]

lemma CopyToPatch_btn [simp]:
  "Btn1Pressed (CopyToPatch s) = Btn1Pressed s"
  by (simp add: CopyToPatch_def)

lemma NormalButtons_returns:
  assumes "(True, True) \<in> set lvs"
  shows "\<exists>t. NormalButtons ram lvs s = Some t"
proof -
  have w2: "\<exists>t. WaitBothBtns lvs (CheckLeds ram u) = Some t" if "Btn0Pressed u" for u
    using that assms by (intro WaitBothBtns_returns) simp_all
  have w1: "\<exists>t. WaitBtn1 lvs (CheckLeds ram u) = Some t" if "Btn1Pressed u" for u
    using that assms by (intro WaitBtn1_returns) simp_all
  show ?thesis
    unfolding NormalButtons_def Let_def by (auto intro!: w1 w2)
qed

lemma PatchButtons_returns:
  assumes "(True, True) \<in> set lvs"
  shows "\<exists>t. PatchButtons ram lvs s = Some t"
proof -
  have w2: "\<exists>t. WaitBothBtns lvs (CheckLeds ram u) = Some t" if "Btn0Pressed u" for u
    using that assms by (intro WaitBothBtns_returns) simp_all
  show ?thesis
    unfolding PatchButtons_def Let_def by (auto intro!: w2)
qed

lemma SaveButtons_returns:
  assumes "(True, True) \<in> set lvs"
  shows "\<exists>t. SaveButtons ram lvs s = Some t"
proof -
  have w1: "\<exists>t. WaitBtn1 lvs (CheckLeds ram u) = Some t" if "Btn1Pressed u" for u
    using that assms by (intro WaitBtn1_returns) simp_all
  show ?thesis
    unfolding SaveButtons_def Let_def by (auto intro!: w1)
qed

lemma Loop_returns:
  assumes "(True, True) \<in> set lvs"
  shows "\<exists>s'. Loop ram ex sel lvs s = Some s'"
  using NormalButtons_returns [OF assms] PatchButtons_returns [OF assms]
    SaveButtons_returns [OF assms]
  by (cases "mode_of s")
    (auto simp: Loop_Normal Loop_Patch Loop_Save LoopNormal_def LoopPatch_def LoopSave_def)

text \<open>
  C1. A pass of \<^verbatim>\<open>loop()\<close> returns if the two buttons are both up at one of the
  samples its blocking wait takes (a pass that reaches no wait returns anyway). A pass
  that returns has sampled the pedal into \<^verbatim>\<open>ExpVal\<close>, and
  \<^item> when it started in Normal mode, it has sent exactly one value per enabled channel, in
    channel order, the taper switch applied to the pedal value and the channel's mode;
  \<^item> when it started in Patch mode with a patch 0..3 active at the output stage, the same
    with the flags and modes of that patch;
  \<^item> when it started in Patch mode with no patch active (255), it has sent nothing.
  The flags, modes and active patch are those the pass leaves behind: the button and
  selector handling of the same pass comes before the output stage. For a mode in 0..3
  the taper switch always yields a value.
\<close>

theorem C1_outputs:
  "((True, True) \<in> set lvs \<longrightarrow> (\<exists>s'. Loop ram ex sel lvs s = Some s'))
   \<and> (\<forall>s'. Loop ram ex sel lvs s = Some s' \<longrightarrow>
        ExpVal s' = ucast (drop_bit 2 ex)
        \<and> (mode_of s = Normal \<longrightarrow>
             PotWrites s' = PotWrites s @ outputs (ExpVal s') (ChnlState s') (ChnlMode s'))
        \<and> (mode_of s = Patch \<and> PatchActive s' \<le> 3 \<longrightarrow>
             PotWrites s' = PotWrites s @ outputs (ExpVal s')
                              (PatchChnlState s' ! unat (PatchActive s'))
                              (PatchModeState s' ! unat (PatchActive s')))
        \<and> (mode_of s = Patch \<and> PatchActive s' = 255 \<longrightarrow> PotWrites s' = PotWrites s)
        \<and> (\<forall>v m. m \<le> 3 \<longrightarrow> (\<exists>w. TaperMapper v m = Some w)))"
  using Loop_returns [of lvs ram ex sel s] Loop_outputs [of ram ex sel lvs s] by blast

lemma outputs_demo:
  "outputs 100 [True, False, True, False] [0, 1, 2, 3] = [(0, 100), (2, 39)]"
  "outputs 50 [True, False, False, False] [1, 0, 0, 0] = [(0, 205)]"
  by (simp_all add: outputs_def channel_output_def TaperMapper_def LogPot_def)

lemmas loop_defs = Loop_def LoopNormal_def LoopPatch_def LoopSave_def NormalButtons_def
  PatchButtons_def SaveButtons_def NormalSelector_def PatchSelector_def NormalOutputs_def
  PatchOutputs_def CheckSelector_def CheckLeds_def LedPatchStep_def LedNormalStep_def
  LedNormalMode_def LedSaveStep_def WritePotSPI_def TaperMapper_def ClrBtns_def
  ToggleChnl_def SetChnlMode_def CopyToPatch_def NextSelIndex_def Let_def

theorem C1_outputs_witness:
  "(\<exists>s'. Loop no_ram 400 0 [] demo = Some s' \<and> mode_of demo = Normal
         \<and> PotWrites s' = [(0, 100), (2, 39)])
   \<and> (\<exists>s'. Loop no_ram 200 0 [] (demo\<lparr>PatchMode := True, PatchActive := 1\<rparr>) = Some s'
         \<and> PatchActive s' \<le> 3 \<and> PotWrites s' = [(0, 205)])
   \<and> (\<exists>s'. Loop no_ram 200 0 [] (demo\<lparr>PatchMode := True\<rparr>) = Some s'
         \<and> PatchActive s' = 255 \<and> PotWrites s' = [])"
proof -
  have a: "\<exists>s'. Loop no_ram 400 0 [] demo = Some s' \<and> ChnlState s' = [True, False, True, False]
      \<and> ChnlMode s' = [0, 1, 2, 3]"
    by (simp add: loop_defs demo_def init_state_def)
  have b: "\<exists>s'. Loop no_ram 200 0 [] (demo\<lparr>PatchMode := True, PatchActive := 1\<rparr>) = Some s'
      \<and> PatchActive s' = 1 \<and> PatchChnlState s' = PatchChnlState demo
      \<and> PatchModeState s' = PatchModeState demo"
    by (simp add: loop_defs demo_def init_state_def)
  have c: "\<exists>s'. Loop no_ram 200 0 [] (demo\<lparr>PatchMode := True\<rparr>) = Some s' \<and> PatchActive s' = 255"
    by (simp add: loop_defs demo_def init_state_def)
  have m: "mode_of demo = Normal" "mode_of (demo\<lparr>PatchMode := True, PatchActive := 1\<rparr>) = Patch"
    "mode_of (demo\<lparr>PatchMode := True\<rparr>) = Patch" "PotWrites demo = []"
    "PatchChnlState demo ! Suc 0 = [True, False, False, False]"
    "PatchModeState demo ! Suc 0 = [1, 0, 0, 0]"
    by (simp_all add: mode_of_def demo_def init_state_def)
  from a obtain s1 where s1: "Loop no_ram 400 0 [] demo = Some s1"
    "ChnlState s1 = [True, False, True, False]" "ChnlMode s1 = [0, 1, 2, 3]" by blast
  from b obtain s2 where s2: "Loop no_ram 200 0 [] (demo\<lparr>PatchMode := True, PatchActive := 1\<rparr>) = Some s2"
    "PatchActive s2 = 1" "PatchChnlState s2 = PatchChnlState demo"
    "PatchModeState s2 = PatchModeState demo" by blast
  from c obtain s3 where s3: "Loop no_ram 200 0 [] (demo\<lparr>PatchMode := True\<rparr>) = Some s3"
    "PatchActive s3 = 255" by blast
  from C1_outputs [of "[]" no_ram 400 0 demo] s1(1)
  have "PotWrites s1 = [(0, 100), (2, 39)]"
    by (simp add: m s1 outputs_demo)
  moreover from C1_outputs [of "[]" no_ram 200 0 "demo\<lparr>PatchMode := True, PatchActive := 1\<rparr>"] s2(1)
  have "PotWrites s2 = [(0, 205)]"
    by (simp add: m(2,4) s2) (simp add: m(5,6) outputs_demo)
  moreover from C1_outputs [of "[]" no_ram 200 0 "demo\<lparr>PatchMode := True\<rparr>"] s3(1)
  have "PotWrites s3 = []"
    by (simp add: m s3)
  ultimately show ?thesis using s1 s2 s3 m by simp
qed

section \<open>The active patch\<close>

lemma adc_sel: "adc sel \<Longrightarrow> (ucast (drop_bit 8 sel) :: byte) \<le> 3"
proof -
  assume "adc sel"
  then have "unat sel \<le> 1023" by (simp add: adc_def word_le_nat_alt)
  then have "unat sel div 256 \<le> 3" by arith
  then have d: "unat (drop_bit 8 sel) \<le> 3" by (simp add: drop_bit_eq_div unat_div)
  then have "take_bit 8 (unat (drop_bit 8 sel)) = unat (drop_bit 8 sel)"
    by (simp add: take_bit_nat_eq_self)
  with d show ?thesis by (simp add: word_le_nat_alt unsigned_ucast_eq)
qed

lemma IntTmr1_keeps:
  "SelIndex (IntTmr1 ram lv s) = SelIndex s" "PatchActive (IntTmr1 ram lv s) = PatchActive s"
  by (simp_all add: IntTmr1_def Let_def Tmr10msTask_def Tmr100msTask_def Tmr250msTask_def
        Tmr500msTask_def LedsFastBlink_def LedsSlowBlink_def CheckSaveMode_def)

lemma Loop_inv:
  assumes "Loop ram ex sel lvs s = Some s'" and "adc sel"
    and "SelIndex s \<le> 3" and "PatchActive s \<le> 3 \<or> PatchActive s = 255"
  shows "SelIndex s' \<le> 3 \<and> (PatchActive s' \<le> 3 \<or> PatchActive s' = 255)"
proof -
  let ?s0 = "CheckSelector sel (s\<lparr>ExpInputVal := ex, ExpVal := ucast (drop_bit 2 ex)\<rparr>)"
  have s0: "SelIndex ?s0 = SelIndex s" "PatchActive ?s0 = PatchActive s" "SelVal ?s0 \<le> 3"
    using adc_sel [OF assms(2)] by simp_all
  show ?thesis
  proof (cases "mode_of s")
    case Normal
    with assms(1) obtain t where t: "NormalButtons ram lvs ?s0 = Some t"
      and s': "s' = NormalOutputs (NormalSelector ram t)"
      by (auto simp: Loop_Normal LoopNormal_def)
    from NormalButtons_keeps(4,5) [OF t] assms(3,4) show ?thesis
      by (auto simp: s' NormalOutputs_eq NormalSelector_keeps s0)
  next
    case Patch
    with assms(1) obtain t where t: "PatchButtons ram lvs ?s0 = Some t"
      and s': "s' = PatchOutputs (PatchSelector ram t)"
      by (auto simp: Loop_Patch LoopPatch_def)
    have o: "SelIndex (PatchOutputs u) = SelIndex u" for u
      unfolding PatchOutputs_def PatchOutputs_fold [OF idx4] by simp
    from PatchButtons_keeps(3,4,5) [OF t] PatchSelector_keeps(4) [of ram t] assms(3,4) s0
    show ?thesis
      by (auto simp: s' o PatchOutputs_keeps PatchSelector_keeps)
  next
    case Save
    with assms(1) obtain t where t: "SaveButtons ram lvs ?s0 = Some t"
      and s': "s' = t\<lparr>SelIndex := SelVal t, SelValChng := False\<rparr>"
      by (auto simp: Loop_Save LoopSave_def)
    from SaveButtons_keeps(3,4) [OF t] assms(4) s0 show ?thesis
      by (auto simp: s')
  qed
qed

lemma reachable_inv:
  assumes "reachable s"
  shows "SelIndex s \<le> 3 \<and> (PatchActive s \<le> 3 \<or> PatchActive s = 255)"
  using assms
proof (induction rule: reachable.induct)
  case (boot rom ex sel lv)
  from setup_fn_ReadNvmData [OF boot(1)] obtain t
    where t: "setup_fn rom ex sel lv = ReadNvmData t" "shape t" "SelIndex t = 0" "PatchActive t = 255"
    by blast
  show ?case
    unfolding t(1) by (subst (1 2 3) ReadNvmData_shape [OF t(2)]) (simp add: t(3,4))
next
  case (pass s ex sel ram lvs s')
  from Loop_inv [OF pass(4) pass(3)] pass.IH show ?case by blast
next
  case (tick s ram lv)
  then show ?case by (simp add: IntTmr1_keeps)
qed

lemma patch_active_unat:
  assumes "j < 4"
  shows "patch_active s j = (unat (PatchActive s) = j)"
proof -
  from assms have "unat (of_nat j :: byte) = j" by (simp add: unat_of_nat)
  then show ?thesis by (auto simp: patch_active_def word_unat_eq_iff)
qed

lemma Loop_patch_onoff:
  assumes "PatchMode s" and "Btn0Pressed s" and "Btn0Released s"
    and "\<not> Btn1Pressed s" and "\<not> Btn1Released s"
  shows "\<exists>s'. Loop ram ex sel lvs s = Some s'
           \<and> PatchActive s' = (if SelIndex s = PatchActive s then 255 else SelIndex s)"
proof -
  let ?s0 = "CheckSelector sel (s\<lparr>ExpInputVal := ex, ExpVal := ucast (drop_bit 2 ex)\<rparr>)"
  have b: "Btn0Pressed ?s0" "Btn0Released ?s0" "\<not> Btn1Pressed ?s0" "\<not> Btn1Released ?s0"
    using assms by (simp_all add: CheckSelector_def Let_def)
  from assms(1) have m: "mode_of s = Patch" by (simp add: mode_of_def)
  have "PatchButtons ram lvs ?s0 = Some (ClrBtns (CheckLeds ram
               (if SelIndex ?s0 = PatchActive ?s0 then ?s0\<lparr>PatchActive := 255\<rparr>
                else ?s0\<lparr>PatchActive := SelIndex ?s0\<rparr>)))"
    unfolding PatchButtons_def using b by (simp only: if_True simp_thms)
  then show ?thesis
    by (simp add: Loop_Patch [OF m] LoopPatch_def PatchOutputs_keeps PatchSelector_keeps)
qed

text \<open>
  C4. In every state the device can reach, the active-patch variable is an index 0..3 or
  the value 255 that stands for none, so no two patches are active together. In Patch
  mode, a pass that finds the On/Off button pressed and released, and the select button
  untouched, returns; if the selection was the active patch, no patch is active
  afterwards, and otherwise the selected patch is the active one and no other is.
\<close>

theorem C4_single_active_patch:
  assumes "reachable s"
  shows "(PatchActive s \<le> 3 \<or> PatchActive s = 255)
    \<and> (\<forall>i<4. \<forall>j<4. patch_active s i \<longrightarrow> patch_active s j \<longrightarrow> i = j)
    \<and> (PatchMode s \<and> Btn0Pressed s \<and> Btn0Released s \<and> \<not> Btn1Pressed s \<and> \<not> Btn1Released s \<longrightarrow>
         (\<exists>s'. Loop ram ex sel lvs s = Some s'
            \<and> PatchActive s' = (if SelIndex s = PatchActive s then 255 else SelIndex s)
            \<and> (SelIndex s = PatchActive s \<longrightarrow> (\<forall>j<4. \<not> patch_active s' j))
            \<and> (SelIndex s \<noteq> PatchActive s \<longrightarrow>
                 (\<forall>j<4. patch_active s' j = (j = unat (SelIndex s))))))"
proof -
  from reachable_inv [OF assms] have i: "SelIndex s \<le> 3" "PatchActive s \<le> 3 \<or> PatchActive s = 255"
    by simp_all
  have 1: "\<forall>i<4. \<forall>j<4. patch_active s i \<longrightarrow> patch_active s j \<longrightarrow> i = j"
    by (simp add: patch_active_unat)
  have 2: "\<exists>s'. Loop ram ex sel lvs s = Some s'
            \<and> PatchActive s' = (if SelIndex s = PatchActive s then 255 else SelIndex s)
            \<and> (SelIndex s = PatchActive s \<longrightarrow> (\<forall>j<4. \<not> patch_active s' j))
            \<and> (SelIndex s \<noteq> PatchActive s \<longrightarrow>
                 (\<forall>j<4. patch_active s' j = (j = unat (SelIndex s))))"
    if h: "PatchMode s \<and> Btn0Pressed s \<and> Btn0Released s \<and> \<not> Btn1Pressed s \<and> \<not> Btn1Released s"
  proof -
    from h Loop_patch_onoff [of s ram ex sel lvs] obtain s' where
      s': "Loop ram ex sel lvs s = Some s'"
        "PatchActive s' = (if SelIndex s = PatchActive s then 255 else SelIndex s)"
      by blast
    have a: "\<forall>j<4. \<not> patch_active s' j" if "SelIndex s = PatchActive s"
      using that by (simp add: patch_active_unat s'(2))
    have b: "\<forall>j<4. patch_active s' j = (j = unat (SelIndex s))" if "SelIndex s \<noteq> PatchActive s"
      using that by (auto simp: patch_active_unat s'(2))
    from s' a b show ?thesis by blast
  qed
  from i(2) 1 2 show ?thesis by blast
qed

lemma patch_boot_eq:
  "patch_boot = (init_state [0, 0, 0, 0, 0, 0, 0, 0, 0, 1])
     \<lparr>Btn0State := True, Btn1State := True,
      PotWrites := [(0, 0), (1, 0), (2, 0), (3, 0)],
      NvmData := [0, 0, 0, 0, 0, 0, 0, 0, 0, 1], PatchMode := True\<rparr>"
proof -
  let ?t = "DigPotsInit (CheckBtns (True, True) ((init_state [0, 0, 0, 0, 0, 0, 0, 0, 0, 1])
      \<lparr>SelVal := ucast (drop_bit 8 (0 :: 16 word)),
               LastSelVal := ucast (drop_bit 8 (0 :: 16 word)), ExpVal := ucast (drop_bit 2 (0 :: 16 word))\<rparr>))"
  have 1: "patch_boot = ReadNvmData ?t"
    by (simp add: patch_boot_def setup_fn_def Let_def)
  have 2: "shape ?t"
    by (simp add: DigPotsInit_eq CheckBtns_eq shape_def init_state_def)
  show ?thesis
    unfolding 1 ReadNvmData_shape [OF 2]
    by (simp add: DigPotsInit_eq CheckBtns_eq init_state_def)
qed

lemma patch_tap_eq:
  "patch_tap = patch_boot\<lparr>TimerCount := 2, Btn0State := True, Btn1State := True,
      Btn0Pressed := True, Btn0Released := True\<rparr>"
  unfolding patch_tap_def IntTmr1_def Tmr10msTask_def Tmr250msTask_def LedsSlowBlink_def
  by (simp add: Let_def CheckBtns_eq patch_boot_eq init_state_def)

lemma patch_tap_eval:
  "PatchMode patch_tap" "Btn0Pressed patch_tap" "Btn0Released patch_tap"
  "\<not> Btn1Pressed patch_tap" "\<not> Btn1Released patch_tap"
  "SelIndex patch_tap = 0" "PatchActive patch_tap = 255"
  by (simp_all add: patch_tap_eq patch_boot_eq init_state_def)

lemma patch_tap_reachable: "reachable patch_tap"
  unfolding patch_tap_def patch_boot_def
  by (intro reachable.tick reachable.boot) (simp_all add: adc_def)

theorem C4_single_active_patch_witness:
  "reachable patch_tap \<and> PatchMode patch_tap \<and> Btn0Pressed patch_tap \<and> Btn0Released patch_tap
   \<and> \<not> Btn1Pressed patch_tap \<and> \<not> Btn1Released patch_tap \<and> SelIndex patch_tap \<noteq> PatchActive patch_tap
   \<and> (\<exists>s'. Loop no_ram 0 0 [] patch_tap = Some s' \<and> PatchActive s' = 0
          \<and> patch_active s' 0 \<and> \<not> patch_active s' 1)"
proof -
  note e = patch_tap_eval
  from C4_single_active_patch [OF patch_tap_reachable, of no_ram 0 0 "[]"] e
  obtain s' where s': "Loop no_ram 0 0 [] patch_tap = Some s'" "PatchActive s' = 0"
    "\<forall>j<4. patch_active s' j = (j = unat (SelIndex patch_tap))"
    by auto
  from s'(3) [rule_format, of 0] s'(3) [rule_format, of 1]
  have "patch_active s' 0" "\<not> patch_active s' 1" by (simp_all add: e)
  with s' e patch_tap_reachable show ?thesis by simp
qed

section \<open>Mode changes, long press and the selection index\<close>

text \<open>
  What a pass of \<^verbatim>\<open>loop()\<close> does to the operating mode, in general. The lemmas of
  this section are about every state, reachable or not.
\<close>

lemmas keeps_more [simp] =
  CheckLeds_frame [of SaveModeCounter, simplified] CheckLeds_frame [of SvMdCntrActive, simplified]
  CheckLeds_frame [of PatchChnlState, simplified] CheckLeds_frame [of PatchModeState, simplified]
  CheckLeds_frame [of ChnlState, simplified] CheckLeds_frame [of ChnlMode, simplified]
  CheckLeds_frame [of NvmData, simplified] CheckLeds_frame [of Eeprom, simplified]
  ClrBtns_frame [of SaveModeCounter, simplified] ClrBtns_frame [of SvMdCntrActive, simplified]
  ClrBtns_frame [of PatchChnlState, simplified] ClrBtns_frame [of PatchModeState, simplified]
  ClrBtns_frame [of ChnlState, simplified] ClrBtns_frame [of ChnlMode, simplified]
  ClrBtns_frame [of NvmData, simplified] ClrBtns_frame [of Eeprom, simplified]
  UpdateNvmData_frame [of SaveModeCounter, simplified]
  UpdateNvmData_frame [of SvMdCntrActive, simplified]
  UpdateNvmData_frame [of PatchChnlState, simplified]
  UpdateNvmData_frame [of PatchModeState, simplified]
  UpdateNvmData_frame [of ChnlState, simplified] UpdateNvmData_frame [of ChnlMode, simplified]
  UpdateNvmData_frame [of Btn0Pressed, simplified] UpdateNvmData_frame [of Btn0Released, simplified]
  UpdateNvmData_frame [of Btn1Pressed, simplified] UpdateNvmData_frame [of Btn1Released, simplified]

lemmas wait_keeps_more =
  WaitBothBtns_frame [of SaveModeCounter, simplified]
  WaitBothBtns_frame [of SvMdCntrActive, simplified]
  WaitBothBtns_frame [of PatchChnlState, simplified]
  WaitBothBtns_frame [of PatchModeState, simplified]
  WaitBothBtns_frame [of ChnlState, simplified] WaitBothBtns_frame [of ChnlMode, simplified]
  WaitBothBtns_frame [of NvmData, simplified] WaitBothBtns_frame [of Eeprom, simplified]
  WaitBtn1_frame [of SaveModeCounter, simplified] WaitBtn1_frame [of SvMdCntrActive, simplified]
  WaitBtn1_frame [of PatchChnlState, simplified] WaitBtn1_frame [of PatchModeState, simplified]
  WaitBtn1_frame [of ChnlState, simplified] WaitBtn1_frame [of ChnlMode, simplified]
  WaitBtn1_frame [of NvmData, simplified] WaitBtn1_frame [of Eeprom, simplified]

lemma NormalButtons_modes:
  assumes "NormalButtons ram lvs s = Some t" and "\<not> PatchMode s" and "\<not> SaveMode s"
  shows "(\<not> PatchMode t \<and> \<not> SaveMode t)
     \<or> (PatchMode t \<and> \<not> SaveMode t \<and> both_pressed s \<and> SelIndex t = 0)
     \<or> (\<not> PatchMode t \<and> SaveMode t \<and> select_held s \<and> 3 < SaveModeCounter s \<and> SelIndex t = 0)"
  using assms
  by (auto simp: NormalButtons_def Let_def both_pressed_def select_held_def
        split: if_splits dest: wait_keeps)

lemma PatchButtons_modes:
  assumes "PatchButtons ram lvs s = Some t" and "PatchMode s"
  shows "SaveMode t = SaveMode s \<and> (PatchMode t \<or> (\<not> PatchMode t \<and> both_pressed s))"
  using assms
  by (auto simp: PatchButtons_def Let_def both_pressed_def split: if_splits dest: wait_keeps)

lemma SaveButtons_modes:
  assumes "SaveButtons ram lvs s = Some t" and "\<not> PatchMode s" and "SaveMode s"
  shows "\<not> PatchMode t
     \<and> (SaveMode t \<or> (\<not> SaveMode t \<and> Btn1Pressed s \<and> \<not> Btn1Released s \<and> 3 < SaveModeCounter s))"
  using assms
  by (auto simp: SaveButtons_def Let_def split: if_splits dest: wait_keeps)

lemma selector_modes [simp]:
  "PatchMode (NormalSelector ram s) = PatchMode s" "SaveMode (NormalSelector ram s) = SaveMode s"
  "PatchMode (PatchSelector ram s) = PatchMode s" "SaveMode (PatchSelector ram s) = SaveMode s"
  by (simp_all add: NormalSelector_def PatchSelector_def)

lemma outputs_modes [simp]:
  "PatchMode (NormalOutputs s) = PatchMode s" "SaveMode (NormalOutputs s) = SaveMode s"
  "SelIndex (NormalOutputs s) = SelIndex s"
  "PatchMode (PatchOutputs s) = PatchMode s" "SaveMode (PatchOutputs s) = SaveMode s"
  "SelIndex (PatchOutputs s) = SelIndex s"
  unfolding PatchOutputs_def PatchOutputs_fold [OF idx4] by (simp_all add: NormalOutputs_eq)

lemma CheckSelector_btns [simp]:
  "both_pressed (CheckSelector sel (s\<lparr>ExpInputVal := ex, ExpVal := v\<rparr>)) = both_pressed s"
  "select_held (CheckSelector sel (s\<lparr>ExpInputVal := ex, ExpVal := v\<rparr>)) = select_held s"
  "Btn1Pressed (CheckSelector sel (s\<lparr>ExpInputVal := ex, ExpVal := v\<rparr>)) = Btn1Pressed s"
  "Btn1Released (CheckSelector sel (s\<lparr>ExpInputVal := ex, ExpVal := v\<rparr>)) = Btn1Released s"
  "SaveModeCounter (CheckSelector sel (s\<lparr>ExpInputVal := ex, ExpVal := v\<rparr>)) = SaveModeCounter s"
  by (simp_all add: CheckSelector_def Let_def both_pressed_def select_held_def)

lemma Loop_mode_graph:
  assumes "Loop ram ex sel lvs s = Some s'"
  shows "mode_of s = Normal \<longrightarrow>
           mode_of s' = Normal
           \<or> (mode_of s' = Patch \<and> both_pressed s \<and> SelIndex s' = 0)
           \<or> (mode_of s' = Save \<and> select_held s \<and> 3 < SaveModeCounter s \<and> SelIndex s' = 0)"
    and "mode_of s = Patch \<and> \<not> SaveMode s \<longrightarrow>
           mode_of s' = Patch \<or> (mode_of s' = Normal \<and> both_pressed s)"
    and "mode_of s = Save \<longrightarrow>
           mode_of s' = Save
           \<or> (mode_of s' = Normal \<and> Btn1Pressed s \<and> \<not> Btn1Released s \<and> 3 < SaveModeCounter s)"
proof -
  let ?s0 = "CheckSelector sel (s\<lparr>ExpInputVal := ex, ExpVal := ucast (drop_bit 2 ex)\<rparr>)"
  show "mode_of s = Normal \<longrightarrow>
           mode_of s' = Normal
           \<or> (mode_of s' = Patch \<and> both_pressed s \<and> SelIndex s' = 0)
           \<or> (mode_of s' = Save \<and> select_held s \<and> 3 < SaveModeCounter s \<and> SelIndex s' = 0)"
  proof
    assume m: "mode_of s = Normal"
    with assms obtain t where t: "NormalButtons ram lvs ?s0 = Some t"
      and s': "s' = NormalOutputs (NormalSelector ram t)"
      by (auto simp: Loop_Normal LoopNormal_def)
    from m have "\<not> PatchMode ?s0" "\<not> SaveMode ?s0" by (simp_all add: mode_of_def split: if_splits)
    from NormalButtons_modes [OF t this] show "mode_of s' = Normal
           \<or> (mode_of s' = Patch \<and> both_pressed s \<and> SelIndex s' = 0)
           \<or> (mode_of s' = Save \<and> select_held s \<and> 3 < SaveModeCounter s \<and> SelIndex s' = 0)"
      by (auto simp: s' mode_of_def NormalSelector_keeps)
  qed
  show "mode_of s = Patch \<and> \<not> SaveMode s \<longrightarrow>
           mode_of s' = Patch \<or> (mode_of s' = Normal \<and> both_pressed s)"
  proof
    assume m: "mode_of s = Patch \<and> \<not> SaveMode s"
    with assms obtain t where t: "PatchButtons ram lvs ?s0 = Some t"
      and s': "s' = PatchOutputs (PatchSelector ram t)"
      by (auto simp: Loop_Patch LoopPatch_def)
    from m have "PatchMode ?s0" by (simp add: mode_of_def split: if_splits)
    from PatchButtons_modes [OF t this] m
    show "mode_of s' = Patch \<or> (mode_of s' = Normal \<and> both_pressed s)"
      by (auto simp: s' mode_of_def)
  qed
  show "mode_of s = Save \<longrightarrow>
           mode_of s' = Save
           \<or> (mode_of s' = Normal \<and> Btn1Pressed s \<and> \<not> Btn1Released s \<and> 3 < SaveModeCounter s)"
  proof
    assume m: "mode_of s = Save"
    with assms obtain t where t: "SaveButtons ram lvs ?s0 = Some t"
      and s': "s' = t\<lparr>SelIndex := SelVal t, SelValChng := False\<rparr>"
      by (auto simp: Loop_Save LoopSave_def)
    from m have "\<not> PatchMode ?s0" "SaveMode ?s0" by (simp_all add: mode_of_def split: if_splits)
    from SaveButtons_modes [OF t this]
    show "mode_of s' = Save
           \<or> (mode_of s' = Normal \<and> Btn1Pressed s \<and> \<not> Btn1Released s \<and> 3 < SaveModeCounter s)"
      by (auto simp: s' mode_of_def)
  qed
qed

lemma CheckSelector_chng:
  "SelValChng (CheckSelector sel s) = (SelValChng s \<or> ucast (drop_bit 8 sel) \<noteq> LastSelVal s)"
  "Btn0Pressed (CheckSelector sel s) = Btn0Pressed s" "Btn0Released (CheckSelector sel s) = Btn0Released s"
  "SvMdCntrActive (CheckSelector sel s) = SvMdCntrActive s"
  "PatchChnlState (CheckSelector sel s) = PatchChnlState s"
  "PatchModeState (CheckSelector sel s) = PatchModeState s"
  "ChnlState (CheckSelector sel s) = ChnlState s" "ChnlMode (CheckSelector sel s) = ChnlMode s"
  by (auto simp: CheckSelector_def Let_def)

text \<open>
  The combined press. From Normal mode the pass ends in Patch mode with selection index
  0. From Patch mode it ends in Normal mode, with selection index 0 unless the selector
  reading has changed, in which case the index is the reading.
\<close>

lemma Loop_normal_combined:
  assumes "Loop ram ex sel lvs s = Some s'" and "mode_of s = Normal" and "both_pressed s"
  shows "mode_of s' = Patch \<and> SelIndex s' = 0"
proof -
  let ?s0 = "CheckSelector sel (s\<lparr>ExpInputVal := ex, ExpVal := ucast (drop_bit 2 ex)\<rparr>)"
  from assms(1,2) obtain t where t: "NormalButtons ram lvs ?s0 = Some t"
    and s': "s' = NormalOutputs (NormalSelector ram t)"
    by (auto simp: Loop_Normal LoopNormal_def)
  from assms(3) have b: "both_pressed ?s0" by simp
  from assms(2) have m: "\<not> SaveMode ?s0" by (simp add: mode_of_def split: if_splits)
  from t b m have "PatchMode t \<and> \<not> SaveMode t \<and> SelIndex t = 0"
    by (auto simp: NormalButtons_def both_pressed_def dest: wait_keeps)
  then show ?thesis by (simp add: s' mode_of_def NormalSelector_keeps)
qed

lemma Loop_patch_combined:
  assumes "Loop ram ex sel lvs s = Some s'" and "mode_of s = Patch" and "\<not> SaveMode s"
    and "both_pressed s"
  shows "mode_of s' = Normal
    \<and> SelIndex s' = (if SelValChng s \<or> ucast (drop_bit 8 sel) \<noteq> LastSelVal s
                     then ucast (drop_bit 8 sel) else 0)"
proof -
  let ?s0 = "CheckSelector sel (s\<lparr>ExpInputVal := ex, ExpVal := ucast (drop_bit 2 ex)\<rparr>)"
  from assms(1,2) obtain t where t: "PatchButtons ram lvs ?s0 = Some t"
    and s': "s' = PatchOutputs (PatchSelector ram t)"
    by (auto simp: Loop_Patch LoopPatch_def)
  from assms(4) have b: "both_pressed ?s0" by simp
  have c: "SelValChng ?s0 = (SelValChng s \<or> ucast (drop_bit 8 sel) \<noteq> LastSelVal s)"
    by (simp add: CheckSelector_chng)
  from t b assms(3) have "\<not> PatchMode t \<and> \<not> SaveMode t \<and> SelIndex t = 0
      \<and> SelValChng t = SelValChng ?s0 \<and> SelVal t = ucast (drop_bit 8 sel)"
    by (auto simp: PatchButtons_def both_pressed_def dest: wait_keeps)
  then show ?thesis by (simp add: s' mode_of_def PatchSelector_def c)
qed

text \<open>
  The select button in Normal mode, released before the threshold: the pass steps the
  selection, stops the counter and clears it, and clears the button flags.
\<close>

lemma Loop_normal_tap:
  assumes "mode_of s = Normal"
    and "\<not> Btn0Pressed s" and "\<not> Btn0Released s" and "Btn1Pressed s" and "Btn1Released s"
  shows "\<exists>s'. Loop ram ex sel lvs s = Some s' \<and> mode_of s' = Normal
    \<and> SaveModeCounter s' = 0 \<and> \<not> SvMdCntrActive s'
    \<and> PatchChnlState s' = PatchChnlState s \<and> PatchModeState s' = PatchModeState s
    \<and> \<not> Btn1Pressed s' \<and> \<not> Btn1Released s'"
proof -
  let ?s0 = "CheckSelector sel (s\<lparr>ExpInputVal := ex, ExpVal := ucast (drop_bit 2 ex)\<rparr>)"
  from assms have t: "NormalButtons ram lvs ?s0 = Some (ClrBtns (CheckLeds ram
               ((NextSelIndex ?s0)\<lparr>SvMdCntrActive := False, SaveModeCounter := 0\<rparr>)))"
    by (simp add: NormalButtons_def CheckSelector_chng)
  have sel: "SaveModeCounter (NormalSelector ram u) = SaveModeCounter u"
    "SvMdCntrActive (NormalSelector ram u) = SvMdCntrActive u"
    "PatchChnlState (NormalSelector ram u) = PatchChnlState u"
    "PatchModeState (NormalSelector ram u) = PatchModeState u"
    "Btn1Pressed (NormalSelector ram u) = Btn1Pressed u"
    "Btn1Released (NormalSelector ram u) = Btn1Released u" for u
    by (simp_all add: NormalSelector_def SetChnlMode_def)
  from assms(1) have m: "\<not> PatchMode s" "\<not> SaveMode s" by (simp_all add: mode_of_def split: if_splits)
  show ?thesis
    unfolding Loop_Normal [OF assms(1)] LoopNormal_def t
    by (simp add: NormalOutputs_eq sel mode_of_def m NextSelIndex_def Let_def ClrBtns_def
          CheckSelector_chng)
qed

text \<open>
  The same release in Save mode: the Save branch tests only "pressed and not released",
  so the pass leaves the counter, its arming flag and the button flags as they are.
\<close>

lemma Loop_save_released:
  assumes "mode_of s = Save" and "Btn1Released s"
  shows "Loop ram ex sel lvs s =
     Some ((CheckSelector sel (s\<lparr>ExpInputVal := ex, ExpVal := ucast (drop_bit 2 ex)\<rparr>))
             \<lparr>SelIndex := ucast (drop_bit 8 sel), SelValChng := False\<rparr>)"
  using assms(2)
  by (simp add: Loop_Save [OF assms(1)] LoopSave_def SaveButtons_def)

lemma CopyToPatch_rows:
  assumes "shape s" and "unat (SelIndex s) < 4"
  shows "PatchModeState (CopyToPatch s) = (PatchModeState s)[unat (SelIndex s) := ChnlMode s]"
    and "PatchChnlState (CopyToPatch s) = (PatchChnlState s)[unat (SelIndex s) := ChnlState s]"
proof -
  from assms(1) obtain m0 m1 m2 m3 a0 a1 a2 a3 b0 b1 b2 b3 c0 c1 c2 c3 d0 d1 d2 d3
          p0 p1 p2 p3 q0 q1 q2 q3 r0 r1 r2 r3 t0 t1 t2 t3
  where cm: "ChnlMode s = [m0, m1, m2, m3]"
    and pm: "PatchModeState s = [[a0, a1, a2, a3], [b0, b1, b2, b3], [c0, c1, c2, c3], [d0, d1, d2, d3]]"
    and pc: "PatchChnlState s = [[p0, p1, p2, p3], [q0, q1, q2, q3], [r0, r1, r2, r3], [t0, t1, t2, t3]]"
    by (rule shape_lists)
  from assms(1) have "length (ChnlState s) = 4" by (simp add: shape_def)
  from len4 [OF this] obtain e0 e1 e2 e3 where cs: "ChnlState s = [e0, e1, e2, e3]" by blast
  from lt4_cases [OF assms(2)]
  show "PatchModeState (CopyToPatch s) = (PatchModeState s)[unat (SelIndex s) := ChnlMode s]"
    by (auto simp: CopyToPatch_def assms(2) cm pm pc cs)
  from lt4_cases [OF assms(2)]
  show "PatchChnlState (CopyToPatch s) = (PatchChnlState s)[unat (SelIndex s) := ChnlState s]"
    by (auto simp: CopyToPatch_def assms(2) cm pm pc cs)
qed

lemma CopyToPatch_keeps_more [simp]:
  "ChnlMode (CopyToPatch s) = ChnlMode s" "ChnlState (CopyToPatch s) = ChnlState s"
  "NvmData (CopyToPatch s) = NvmData s" "Eeprom (CopyToPatch s) = Eeprom s"
  "SaveModeCounter (CopyToPatch s) = SaveModeCounter s"
  "SvMdCntrActive (CopyToPatch s) = SvMdCntrActive s"
  by (simp_all add: CopyToPatch_def)

lemmas WaitBtn1_keeps =
  WaitBtn1_frame [of PatchModeState, simplified] WaitBtn1_frame [of PatchChnlState, simplified]
  WaitBtn1_frame [of ChnlMode, simplified] WaitBtn1_frame [of ChnlState, simplified]
  WaitBtn1_frame [of PatchMode, simplified] WaitBtn1_frame [of SaveMode, simplified]
  WaitBtn1_frame [of SaveModeCounter, simplified] WaitBtn1_frame [of SvMdCntrActive, simplified]
  WaitBtn1_frame [of SelVal, simplified] WaitBtn1_frame [of NvmData, simplified]
  WaitBtn1_frame [of Eeprom, simplified]

text \<open>
  The commit of Save mode: with the select button held and the counter above 3, a pass
  that returns has copied the channels into the patch at the selection index, is in
  Normal mode, has cleared the counter and written the record. Its selection index is
  the selector reading, whatever that is.
\<close>

lemma Loop_save_commit:
  assumes "Loop ram ex sel lvs s = Some s'" and "mode_of s = Save"
    and "Btn1Pressed s" and "\<not> Btn1Released s" and "3 < SaveModeCounter s"
    and "shape s" and "unat (SelIndex s) < 4"
  shows "mode_of s' = Normal
    \<and> PatchModeState s' = (PatchModeState s)[unat (SelIndex s) := ChnlMode s]
    \<and> PatchChnlState s' = (PatchChnlState s)[unat (SelIndex s) := ChnlState s]
    \<and> ChnlMode s' = ChnlMode s \<and> ChnlState s' = ChnlState s
    \<and> SaveModeCounter s' = 0 \<and> \<not> SvMdCntrActive s'
    \<and> Eeprom s' = record_bytes s'
    \<and> SelIndex s' = ucast (drop_bit 8 sel)"
proof -
  let ?s0 = "CheckSelector sel (s\<lparr>ExpInputVal := ex, ExpVal := ucast (drop_bit 2 ex)\<rparr>)"
  let ?c = "(CopyToPatch (?s0\<lparr>SvMdCntrActive := False, SaveModeCounter := 0\<rparr>))
                            \<lparr>SelIndex := 0, SelValChng := False, SaveMode := False\<rparr>"
  from assms(2) have m: "\<not> PatchMode s" "SaveMode s" by (simp_all add: mode_of_def split: if_splits)
  from assms(1,2) obtain t where t: "SaveButtons ram lvs ?s0 = Some t"
    and s': "s' = t\<lparr>SelIndex := SelVal t, SelValChng := False\<rparr>"
    by (auto simp: Loop_Save LoopSave_def)
  from t assms(3,4,5) obtain w where w: "WaitBtn1 lvs (CheckLeds ram ?c) = Some w"
    and tw: "t = ClrBtns (UpdateNvmData w)"
    by (auto simp: SaveButtons_def Let_def)
  have sh0: "shape (?s0\<lparr>SvMdCntrActive := False, SaveModeCounter := 0\<rparr>)"
    using assms(6) by (simp add: shape_def CheckSelector_def Let_def)
  have ix: "unat (SelIndex (?s0\<lparr>SvMdCntrActive := False, SaveModeCounter := 0\<rparr>)) = unat (SelIndex s)"
    by simp
  note rows = CopyToPatch_rows [OF sh0, unfolded ix, OF assms(7)]
  have c: "PatchModeState ?c = (PatchModeState s)[unat (SelIndex s) := ChnlMode s]"
    "PatchChnlState ?c = (PatchChnlState s)[unat (SelIndex s) := ChnlState s]"
    "ChnlMode ?c = ChnlMode s" "ChnlState ?c = ChnlState s"
    "\<not> PatchMode ?c" "\<not> SaveMode ?c" "SaveModeCounter ?c = 0" "\<not> SvMdCntrActive ?c"
    "SelVal ?c = ucast (drop_bit 8 sel)"
    "length (NvmData ?c) = 10" "length (Eeprom ?c) = 10"
    using assms(6) m
    by (simp_all add: rows CheckSelector_chng shape_def) (simp_all add: CheckSelector_def Let_def)
  have wf: "PatchModeState w = PatchModeState ?c" "PatchChnlState w = PatchChnlState ?c"
    "ChnlMode w = ChnlMode ?c" "ChnlState w = ChnlState ?c"
    "PatchMode w = PatchMode ?c" "SaveMode w = SaveMode ?c"
    "SaveModeCounter w = SaveModeCounter ?c" "SvMdCntrActive w = SvMdCntrActive ?c"
    "SelVal w = SelVal ?c" "NvmData w = NvmData ?c" "Eeprom w = Eeprom ?c"
    using WaitBtn1_keeps [OF w] by simp_all
  from c(10) have l1: "length (NvmData w) = 10" by (simp only: wf(10))
  from c(11) have l2: "length (Eeprom w) = 10" by (simp only: wf(11))
  note l = l1 l2
  have rb: "record_bytes (w\<lparr>NvmData := a, Eeprom := b, Btn0Pressed := p0, Btn0Released := r0,
      Btn1Pressed := p1, Btn1Released := r1, SelIndex := i, SelValChng := g\<rparr>) = record_bytes w"
    for a b p0 r0 p1 r1 i g
    by (simp add: record_bytes_def)
  have e: "Eeprom s' = record_bytes s'"
    unfolding s' tw UpdateNvmData_eq [OF l] ClrBtns_def by (simp add: rb)
  have f: "PatchModeState s' = PatchModeState w" "PatchChnlState s' = PatchChnlState w"
    "ChnlMode s' = ChnlMode w" "ChnlState s' = ChnlState w"
    "PatchMode s' = PatchMode w" "SaveMode s' = SaveMode w"
    "SaveModeCounter s' = SaveModeCounter w" "SvMdCntrActive s' = SvMdCntrActive w"
    "SelIndex s' = SelVal w"
    by (simp_all add: s' tw)
  from e show ?thesis
    unfolding f wf c mode_of_def using c(5,6) by simp
qed

lemma patch_both_eq:
  "patch_both = patch_boot\<lparr>TimerCount := 1, Btn0State := False, Btn1State := False,
      Btn0Pressed := True, Btn1Pressed := True\<rparr>"
  unfolding patch_both_def IntTmr1_def Tmr10msTask_def Tmr250msTask_def LedsSlowBlink_def
  by (simp add: Let_def CheckBtns_eq patch_boot_eq init_state_def)

lemma patch_both_reachable: "reachable patch_both"
  unfolding patch_both_def patch_boot_def
  by (intro reachable.tick reachable.boot) (simp_all add: adc_def)

text \<open>
  C5. The device has started in Patch mode with selection index 0 and both buttons are
  down. The pass that handles the combined press reads a selector position of 2 where
  the last reading was 0, and sees both buttons released during its wait. It leaves
  Patch mode for Normal mode and writes the record (byte 9 is 0), but the selection
  index it leaves behind is 2: the assignment of 0 at line 238 is overwritten by the
  selector handling of the Patch branch at line 250, which runs in the same pass.
\<close>

theorem C5_mode_change_keeps_selector_index:
  "reachable patch_both \<and> mode_of patch_both = Patch \<and> SelIndex patch_both = 0
   \<and> Btn0Pressed patch_both \<and> \<not> Btn0Released patch_both
   \<and> Btn1Pressed patch_both \<and> \<not> Btn1Released patch_both
   \<and> (\<exists>s'. Loop no_ram 0 512 [(True, True)] patch_both = Some s'
          \<and> mode_of s' = Normal \<and> Eeprom s' ! 9 = 0 \<and> SelIndex s' = 2)"
proof -
  have e: "mode_of patch_both = Patch" "SelIndex patch_both = 0"
    "Btn0Pressed patch_both" "\<not> Btn0Released patch_both"
    "Btn1Pressed patch_both" "\<not> Btn1Released patch_both"
    by (simp_all add: patch_both_eq patch_boot_eq init_state_def mode_of_def)
  have "\<exists>s'. Loop no_ram 0 512 [(True, True)] patch_both = Some s'
          \<and> mode_of s' = Normal \<and> Eeprom s' ! 9 = 0 \<and> SelIndex s' = 2"
    by (simp add: patch_both_eq patch_boot_eq init_state_def loop_defs CheckBtns_eq
          UpdateNvmData_def mode_of_def)
  with e patch_both_reachable show ?thesis by simp
qed

text \<open>
  C7. In Save mode with the selector at 2, the selection index at 2, the select button
  held and the counter at 4, the pass commits: patch 2 receives the four channel flags
  and tapers, the mode is Normal afterwards and the record is written with the new
  patch. The selection index it leaves behind is 2, the selector position: the
  assignment of 0 at line 381 is overwritten at line 394, which the Save branch runs
  on every pass, the committing one included.
\<close>

theorem C7_commit_keeps_selector_index:
  "mode_of save_hold = Save \<and> SelIndex save_hold = 2 \<and> SaveModeCounter save_hold > 3
   \<and> Btn1Pressed save_hold \<and> \<not> Btn1Released save_hold
   \<and> (\<exists>s'. Loop no_ram 0 512 [(True, True)] save_hold = Some s'
          \<and> mode_of s' = Normal
          \<and> PatchChnlState s' ! 2 = ChnlState save_hold
          \<and> PatchModeState s' ! 2 = ChnlMode save_hold
          \<and> Eeprom s' = record_bytes s'
          \<and> SelIndex s' = 2)"
proof -
  have e: "mode_of save_hold = Save" "SelIndex save_hold = 2" "SaveModeCounter save_hold > 3"
    "Btn1Pressed save_hold" "\<not> Btn1Released save_hold"
    by (simp_all add: save_hold_def demo_def init_state_def mode_of_def)
  have "\<exists>s'. Loop no_ram 0 512 [(True, True)] save_hold = Some s'
          \<and> mode_of s' = Normal
          \<and> PatchChnlState s' ! 2 = ChnlState save_hold
          \<and> PatchModeState s' ! 2 = ChnlMode save_hold
          \<and> Eeprom s' = record_bytes s'
          \<and> SelIndex s' = 2"
    by (simp add: save_hold_def demo_def init_state_def loop_defs CheckBtns_eq
          UpdateNvmData_def mode_of_def record_bytes_def pack4_def flags4_def)
  with e show ?thesis by simp
qed

text \<open>
  C6. A tap of the select button that ends while the counter stands at 2. In Normal mode
  the pass after the release takes the tap as a step of the selection, stops the counter
  and sets it to 0. In Save mode the pass after the release does nothing of the kind: the
  counter keeps its value and stays armed, so the next 500 ms task counts on, and the
  pressed and released flags of the button stay set, so no later press is latched.
  Neither pass changes the mode or a patch.
\<close>

theorem C6_save_mode_release_keeps_counter:
  "(\<exists>s'. Loop no_ram 0 0 [] normal_tap = Some s' \<and> mode_of s' = Normal
          \<and> PatchChnlState s' = PatchChnlState normal_tap
          \<and> PatchModeState s' = PatchModeState normal_tap
          \<and> SaveModeCounter s' = 0 \<and> \<not> SvMdCntrActive s'
          \<and> \<not> Btn1Pressed s' \<and> \<not> Btn1Released s')
   \<and> (\<exists>s'. Loop no_ram 0 0 [] save_tap = Some s' \<and> mode_of s' = Save
          \<and> PatchChnlState s' = PatchChnlState save_tap
          \<and> PatchModeState s' = PatchModeState save_tap
          \<and> SaveModeCounter s' = 2 \<and> SvMdCntrActive s'
          \<and> SaveModeCounter (Tmr500msTask s') = 3
          \<and> Btn1Pressed s' \<and> Btn1Released s'
          \<and> CheckBtns (True, False) s' = s'\<lparr>Btn0State := True, Btn1State := False\<rparr>)"
proof -
  have a: "\<exists>s'. Loop no_ram 0 0 [] normal_tap = Some s' \<and> mode_of s' = Normal
          \<and> PatchChnlState s' = PatchChnlState normal_tap
          \<and> PatchModeState s' = PatchModeState normal_tap
          \<and> SaveModeCounter s' = 0 \<and> \<not> SvMdCntrActive s'
          \<and> \<not> Btn1Pressed s' \<and> \<not> Btn1Released s'"
    by (simp add: normal_tap_def demo_def init_state_def loop_defs mode_of_def)
  have b: "\<exists>s'. Loop no_ram 0 0 [] save_tap = Some s' \<and> mode_of s' = Save
          \<and> PatchChnlState s' = PatchChnlState save_tap
          \<and> PatchModeState s' = PatchModeState save_tap
          \<and> SaveModeCounter s' = 2 \<and> SvMdCntrActive s'
          \<and> SaveModeCounter (Tmr500msTask s') = 3
          \<and> Btn1Pressed s' \<and> Btn1Released s'
          \<and> CheckBtns (True, False) s' = s'\<lparr>Btn0State := True, Btn1State := False\<rparr>"
    by (simp add: save_tap_def demo_def init_state_def loop_defs mode_of_def
          Tmr500msTask_def CheckSaveMode_def CheckBtns_eq)
  from a b show ?thesis by blast
qed

section \<open>Array bounds\<close>

lemma CheckLeds_patch_none:
  assumes "PatchMode s" and "4 \<le> unat (PatchActive s)"
  shows "Fault (CheckLeds ram s)"
proof -
  have k: "Fault (foldl (LedPatchStep ram) t xs)" if "Fault t" for t xs
    using that by (induction xs arbitrary: t) (simp_all add: LedPatchStep_def Let_def)
  from assms(2) have "Fault (LedPatchStep ram s 0)"
    by (auto simp: LedPatchStep_def Let_def)
  then have "Fault (foldl (LedPatchStep ram) (LedPatchStep ram s 0) [1, 2, 3])" by (rule k)
  with assms(1) show ?thesis by (simp add: CheckLeds_def)
qed

text \<open>
  C9. After a cold start in Patch mode no patch is active (\<^verbatim>\<open>PatchActive\<close> is 255)
  and no array has been indexed out of range so far. The first 100 ms task recomputes the
  LEDs; so does a pass of \<^verbatim>\<open>loop()\<close> that sees the selector move. Either way
  \<^verbatim>\<open>CheckLeds\<close> reads \<^verbatim>\<open>PatchChnlState[255][i]\<close>, beyond the four rows of the
  array, and the pass returns with that read done.
\<close>

theorem C9_led_read_out_of_range:
  "reachable patch_boot \<and> mode_of patch_boot = Patch \<and> PatchActive patch_boot = 255
   \<and> \<not> Fault patch_boot
   \<and> Fault (Tmr100msTask no_ram patch_boot)
   \<and> (\<exists>s'. Loop no_ram 0 512 [] patch_boot = Some s' \<and> reachable s' \<and> Fault s')"
proof -
  have r: "reachable patch_boot"
    unfolding patch_boot_def by (rule reachable.boot) (simp_all add: adc_def)
  have e: "mode_of patch_boot = Patch" "PatchActive patch_boot = 255" "\<not> Fault patch_boot"
    "PatchMode patch_boot" "4 \<le> unat (PatchActive patch_boot)"
    by (simp_all add: patch_boot_eq init_state_def mode_of_def)
  have t: "Fault (Tmr100msTask no_ram patch_boot)"
    unfolding Tmr100msTask_def LedsFastBlink_def by (rule CheckLeds_patch_none [OF e(4,5)])
  have "\<exists>s'. Loop no_ram 0 512 [] patch_boot = Some s' \<and> Fault s'"
    by (simp add: patch_boot_eq init_state_def loop_defs)
  then obtain s' where s': "Loop no_ram 0 512 [] patch_boot = Some s'" "Fault s'" by blast
  have "reachable s'"
    by (rule reachable.pass [OF r _ _ s'(1)]) (simp_all add: adc_def)
  with r e t s' show ?thesis by blast
qed

end
